theory Spec2Isabelle
  imports Complex_Main
begin

section \<open>Retrieval over the chunk table\<close>

subsection \<open>SQL values\<close>

text \<open>
  A nullable SQL value is an \<open>option\<close>, with \<open>None\<close> for NULL. A condition is a nullable
  boolean; \<open>AND\<close> and \<open>OR\<close> follow SQL's three-valued logic, and a \<open>WHERE\<close> clause keeps a row
  only when its condition is true (neither false nor NULL).
\<close>

type_synonym sqlbool = "bool option"

definition sql_and :: "sqlbool \<Rightarrow> sqlbool \<Rightarrow> sqlbool" where
  "sql_and a b =
     (if a = Some False \<or> b = Some False then Some False
      else if a = None \<or> b = None then None
      else Some True)"

definition sql_or :: "sqlbool \<Rightarrow> sqlbool \<Rightarrow> sqlbool" where
  "sql_or a b =
     (if a = Some True \<or> b = Some True then Some True
      else if a = None \<or> b = None then None
      else Some False)"

definition sql_is_null :: "'a option \<Rightarrow> sqlbool" where
  "sql_is_null x = Some (x = None)"

definition sql_strict :: "('a \<Rightarrow> 'b \<Rightarrow> 'c) \<Rightarrow> 'a option \<Rightarrow> 'b option \<Rightarrow> 'c option" where
  "sql_strict f a b = (case a of None \<Rightarrow> None | Some x \<Rightarrow> (case b of None \<Rightarrow> None | Some y \<Rightarrow> Some (f x y)))"

definition sql_where :: "sqlbool \<Rightarrow> bool" where
  "sql_where b = (b = Some True)"

subsection \<open>The chunks table and the operators of the database\<close>

text \<open>
  The table \<open>chunks\<close> of the migrations: \<open>id\<close>, \<open>document_id\<close>, \<open>user_id\<close>, \<open>content\<close> and
  \<open>chunk_index\<close> are \<open>NOT NULL\<close>; \<open>embedding\<close>, \<open>metadata\<close> and \<open>search_vector\<close> are nullable.
  The table is a list of rows, in the order a sequential scan reads them. The types of
  vectors (\<open>'e\<close>), jsonb documents (\<open>'j\<close>), tsvectors (\<open>'v\<close>) and tsqueries (\<open>'q\<close>) belong to
  the database, not to the repository, and stay type parameters.
\<close>

type_synonym uuid = string

record ('e, 'j, 'v) chunk =
  c_id :: uuid
  c_document_id :: uuid
  c_user_id :: uuid
  c_content :: string
  c_chunk_index :: int
  c_embedding :: "'e option"
  c_metadata :: "'j option"
  c_search_vector :: "'v option"

text \<open>
  A \<open>float8\<close> of PostgreSQL, as far as distances reach: a number or NaN. PostgreSQL orders
  floats with NaN equal to itself and greater than every number; arithmetic on NaN gives
  NaN. The numbers are read as reals, so the rounding of \<open>1 - d\<close> is left out.
\<close>

datatype float8 = Num (num_value: real) | NaN

fun float8_gt :: "float8 \<Rightarrow> float8 \<Rightarrow> bool" where
  "float8_gt (Num a) (Num b) = (b < a)"
| "float8_gt NaN (Num b) = True"
| "float8_gt a NaN = False"

fun float8_minus :: "float8 \<Rightarrow> float8 \<Rightarrow> float8" where
  "float8_minus (Num a) (Num b) = Num (a - b)"
| "float8_minus a b = NaN"

datatype pg_error = LimitMustNotBeNegative | DifferentVectorDimensions

text \<open>
  The operators and functions of PostgreSQL and pgvector that the two search functions
  call: \<open><=>\<close> (cosine distance), \<open>@>\<close> (jsonb containment), \<open>@@\<close> (text-search match),
  \<open>ts_rank_cd\<close>, \<open>websearch_to_tsquery('english', _)\<close> and the empty tsquery \<open>''::tsquery\<close>.
  All of them are strict: NULL on a NULL argument. \<open><=>\<close> gives NaN when one of its
  vectors is a zero vector, and raises an error when the two differ in dimension. Ranks
  are read as real numbers.
\<close>

record ('e, 'j, 'v, 'q) postgres =
  cosine_distance :: "'e \<Rightarrow> 'e \<Rightarrow> pg_error + float8"
  jsonb_contains :: "'j \<Rightarrow> 'j \<Rightarrow> bool"
  ts_match :: "'v \<Rightarrow> 'q \<Rightarrow> bool"
  ts_rank_cd :: "'v \<Rightarrow> 'q \<Rightarrow> real"
  websearch_to_tsquery :: "string \<Rightarrow> 'q"
  empty_tsquery :: "'q"

text \<open>
  \<open>ORDER BY k\<close> on a float key that is not NULL: the numbers ascending, then the NaN keys.
  \<open>ORDER BY k DESC\<close> on a real key: NULL keys first, then the numbers descending. Among rows
  with equal keys PostgreSQL fixes no order; here they keep the order of the scan.
\<close>

definition order_by_float8 :: "('a \<Rightarrow> float8) \<Rightarrow> 'a list \<Rightarrow> 'a list" where
  "order_by_float8 k xs =
     sort_key (\<lambda>x. num_value (k x)) (filter (\<lambda>x. k x \<noteq> NaN) xs) @ filter (\<lambda>x. k x = NaN) xs"

definition order_by_desc :: "('a \<Rightarrow> real option) \<Rightarrow> 'a list \<Rightarrow> 'a list" where
  "order_by_desc k xs =
     filter (\<lambda>x. k x = None) xs @ sort_key (\<lambda>x. - the (k x)) (filter (\<lambda>x. k x \<noteq> None) xs)"

text \<open>\<open>LIMIT n\<close>: a negative count is an error of the executor.\<close>

definition sql_limit :: "int \<Rightarrow> 'a list \<Rightarrow> pg_error + 'a list" where
  "sql_limit n xs = (if n < 0 then Inl LimitMustNotBeNegative else Inr (take (nat n) xs))"

definition limit_count :: "int \<Rightarrow> pg_error + nat" where
  "limit_count n = (if n < 0 then Inl LimitMustNotBeNegative else Inr (nat n))"

text \<open>
  A scan with a \<open>WHERE\<close> clause that may raise: the first error ends the query; otherwise
  the rows kept, in scan order, each with what the clause computed for it.
\<close>

fun sql_scan :: "('a \<Rightarrow> pg_error + 'b option) \<Rightarrow> 'a list \<Rightarrow> pg_error + 'b list" where
  "sql_scan w [] = Inr []"
| "sql_scan w (x # xs) =
     (case w x of
        Inl e \<Rightarrow> Inl e
      | Inr kept \<Rightarrow>
          (case sql_scan w xs of
             Inl e \<Rightarrow> Inl e
           | Inr rest \<Rightarrow> Inr (case kept of None \<Rightarrow> rest | Some y \<Rightarrow> y # rest)))"

subsection \<open>\<open>match_chunks\<close>\<close>

text \<open>
  The five-parameter \<open>match_chunks\<close> of the metadata migration (the four-parameter
  overload is dropped by a later migration). Arguments are not NULL, except
  \<open>p_metadata_filter\<close>, which the function tests for NULL.
\<close>

record 'j match_row =
  m_id :: uuid
  m_document_id :: uuid
  m_content :: string
  m_chunk_index :: int
  m_metadata :: "'j option"
  similarity :: float8

definition metadata_cond ::
    "('e, 'j, 'v, 'q) postgres \<Rightarrow> 'j option \<Rightarrow> ('e, 'j, 'v) chunk \<Rightarrow> sqlbool" where
  "metadata_cond pg p_metadata_filter c =
     sql_or (sql_is_null p_metadata_filter)
            (sql_strict (jsonb_contains pg) (c_metadata c) p_metadata_filter)"

text \<open>\<open>1 - (c.embedding <=> query_embedding)\<close>, from the distance.\<close>

definition similarity_of :: "float8 \<Rightarrow> float8" where
  "similarity_of d = float8_minus (Num 1) d"

text \<open>
  The \<open>WHERE\<close> clause on one row. PostgreSQL's planner orders the conjuncts of a scan by
  estimated cost, equal costs in the order written, and the executor stops at the first
  that is not true: the owner test (one operator) comes first, then the metadata condition
  (one operator), and the distance (three operators, \<open><=>\<close>, \<open>-\<close> and \<open>>\<close>) is computed only
  for a row that passes both. A row is kept when all three conjuncts are true; it is kept with its distance
  \<open>c.embedding <=> query_embedding\<close>, which \<open>ORDER BY\<close> and the select list use again (the
  operator is immutable). A NULL embedding makes the third conjunct NULL.
\<close>

definition match_where ::
    "('e, 'j, 'v, 'q) postgres \<Rightarrow> 'e \<Rightarrow> real \<Rightarrow> uuid \<Rightarrow> 'j option \<Rightarrow> ('e, 'j, 'v) chunk
       \<Rightarrow> pg_error + (('e, 'j, 'v) chunk \<times> float8) option" where
  "match_where pg query_embedding match_threshold p_user_id p_metadata_filter c =
     (if c_user_id c \<noteq> p_user_id then Inr None
      else if \<not> sql_where (metadata_cond pg p_metadata_filter c) then Inr None
      else (case c_embedding c of
              None \<Rightarrow> Inr None
            | Some e \<Rightarrow>
                (case cosine_distance pg e query_embedding of
                   Inl err \<Rightarrow> Inl err
                 | Inr d \<Rightarrow>
                     if float8_gt (similarity_of d) (Num match_threshold) then Inr (Some (c, d))
                     else Inr None)))"

definition match_select :: "('e, 'j, 'v) chunk \<times> float8 \<Rightarrow> 'j match_row" where
  "match_select hit =
     (case hit of (c, d) \<Rightarrow>
        \<lparr> m_id = c_id c, m_document_id = c_document_id c, m_content = c_content c,
          m_chunk_index = c_chunk_index c, m_metadata = c_metadata c,
          similarity = similarity_of d \<rparr>)"

text \<open>
  The rows of \<open>chunks\<close> that the query keeps, each with its distance, ordered by
  \<open>c.embedding <=> query_embedding\<close>, before \<open>LIMIT\<close> and projection.
\<close>

definition match_candidates ::
    "('e, 'j, 'v, 'q) postgres \<Rightarrow> ('e, 'j, 'v) chunk list \<Rightarrow> 'e \<Rightarrow> real \<Rightarrow> uuid \<Rightarrow> 'j option
       \<Rightarrow> pg_error + (('e, 'j, 'v) chunk \<times> float8) list" where
  "match_candidates pg chunks query_embedding match_threshold p_user_id p_metadata_filter =
     (case sql_scan (match_where pg query_embedding match_threshold p_user_id p_metadata_filter) chunks of
        Inl e \<Rightarrow> Inl e
      | Inr hits \<Rightarrow> Inr (order_by_float8 snd hits))"

text \<open>The count of \<open>LIMIT\<close> is checked before the first row is fetched.\<close>

definition match_chunks ::
    "('e, 'j, 'v, 'q) postgres \<Rightarrow> ('e, 'j, 'v) chunk list \<Rightarrow> 'e \<Rightarrow> real \<Rightarrow> int \<Rightarrow> uuid \<Rightarrow> 'j option
       \<Rightarrow> pg_error + 'j match_row list" where
  "match_chunks pg chunks query_embedding match_threshold match_count p_user_id p_metadata_filter =
     (case limit_count match_count of
        Inl e \<Rightarrow> Inl e
      | Inr k \<Rightarrow>
          (case match_candidates pg chunks query_embedding match_threshold p_user_id p_metadata_filter of
             Inl e \<Rightarrow> Inl e
           | Inr hits \<Rightarrow> Inr (map match_select (take k hits))))"

text \<open>
  The order \<open>ORDER BY c.embedding <=> query_embedding\<close> gives, read on the similarities of
  two rows, the first listed before the second: among numbers the larger first, NaN after
  every number.
\<close>

fun similarity_order :: "float8 \<Rightarrow> float8 \<Rightarrow> bool" where
  "similarity_order (Num a) (Num b) = (b \<le> a)"
| "similarity_order (Num a) NaN = True"
| "similarity_order NaN (Num b) = False"
| "similarity_order NaN NaN = True"

subsection \<open>\<open>keyword_search_chunks\<close>\<close>

record 'j keyword_row =
  k_id :: uuid
  k_document_id :: uuid
  k_content :: string
  k_chunk_index :: int
  k_metadata :: "'j option"
  rank :: "real option"

definition rank_of :: "('e, 'j, 'v, 'q) postgres \<Rightarrow> 'q \<Rightarrow> ('e, 'j, 'v) chunk \<Rightarrow> real option" where
  "rank_of pg tsq c = sql_strict (ts_rank_cd pg) (c_search_vector c) (Some tsq)"

definition keyword_where ::
    "('e, 'j, 'v, 'q) postgres \<Rightarrow> 'q \<Rightarrow> uuid \<Rightarrow> 'j option \<Rightarrow> ('e, 'j, 'v) chunk \<Rightarrow> sqlbool" where
  "keyword_where pg tsq p_user_id p_metadata_filter c =
     sql_and (sql_and (Some (c_user_id c = p_user_id))
                      (sql_strict (ts_match pg) (c_search_vector c) (Some tsq)))
             (metadata_cond pg p_metadata_filter c)"

definition keyword_select :: "('e, 'j, 'v, 'q) postgres \<Rightarrow> 'q \<Rightarrow> ('e, 'j, 'v) chunk \<Rightarrow> 'j keyword_row" where
  "keyword_select pg tsq c =
     \<lparr> k_id = c_id c, k_document_id = c_document_id c, k_content = c_content c,
       k_chunk_index = c_chunk_index c, k_metadata = c_metadata c,
       rank = rank_of pg tsq c \<rparr>"

definition keyword_candidates ::
    "('e, 'j, 'v, 'q) postgres \<Rightarrow> ('e, 'j, 'v) chunk list \<Rightarrow> 'q \<Rightarrow> uuid \<Rightarrow> 'j option
       \<Rightarrow> ('e, 'j, 'v) chunk list" where
  "keyword_candidates pg chunks tsq p_user_id p_metadata_filter =
     order_by_desc (rank_of pg tsq)
       (filter (\<lambda>c. sql_where (keyword_where pg tsq p_user_id p_metadata_filter c)) chunks)"

text \<open>
  \<open>p_query\<close> may be NULL: \<open>websearch_to_tsquery\<close> is strict, and the function tests
  \<open>tsq IS NULL OR tsq = ''::tsquery\<close> and returns no row before it runs the query.
\<close>

definition keyword_search_chunks ::
    "('e, 'j, 'v, 'q) postgres \<Rightarrow> ('e, 'j, 'v) chunk list \<Rightarrow> string option \<Rightarrow> int \<Rightarrow> uuid \<Rightarrow> 'j option
       \<Rightarrow> pg_error + 'j keyword_row list" where
  "keyword_search_chunks pg chunks p_query p_match_count p_user_id p_metadata_filter =
     (case map_option (websearch_to_tsquery pg) p_query of
        None \<Rightarrow> Inr []
      | Some tsq \<Rightarrow>
          if tsq = empty_tsquery pg then Inr []
          else (case sql_limit p_match_count
                       (keyword_candidates pg chunks tsq p_user_id p_metadata_filter) of
                  Inl e \<Rightarrow> Inl e
                | Inr cs \<Rightarrow> Inr (map (keyword_select pg tsq) cs)))"

subsection \<open>A small database to run the functions on\<close>

text \<open>
  Vectors are lists of integers. The stand-in for \<open><=>\<close> raises on lists of different
  length, gives NaN on a zero vector, and otherwise one minus the cosine, with the norms it
  knows: 5 for \<open>[3, 4]\<close> and 1 for the unit vectors \<open>[1, 0]\<close> and \<open>[0, 1]\<close>. Jsonb documents and
  tsvectors are lists of words, a tsquery is a list of words that must all occur, and the
  query \<open>???\<close> parses to the empty tsquery.
\<close>

definition demo_norm :: "int list \<Rightarrow> real" where
  "demo_norm v = (if v = [3, 4] then 5 else 1)"

definition demo_cosine_distance :: "int list \<Rightarrow> int list \<Rightarrow> pg_error + float8" where
  "demo_cosine_distance a b =
     (if length a \<noteq> length b then Inl DifferentVectorDimensions
      else if list_all (\<lambda>x. x = 0) a \<or> list_all (\<lambda>x. x = 0) b then Inr NaN
      else Inr (Num (1 - real_of_int (sum_list (map2 (*) a b)) / (demo_norm a * demo_norm b))))"

definition demo_pg :: "(int list, string list, string list, string list) postgres" where
  "demo_pg =
     \<lparr> cosine_distance = demo_cosine_distance,
       jsonb_contains = (\<lambda>m f. list_all (\<lambda>w. w \<in> set m) f),
       ts_match = (\<lambda>v q. q \<noteq> [] \<and> list_all (\<lambda>w. w \<in> set v) q),
       ts_rank_cd = (\<lambda>v q. real (length (filter (\<lambda>w. w \<in> set q) v))),
       websearch_to_tsquery = (\<lambda>s. if s = ''???'' then [] else [s]),
       empty_tsquery = [] \<rparr>"

definition demo_chunk :: "uuid \<Rightarrow> uuid \<Rightarrow> uuid \<Rightarrow> int list \<Rightarrow> string list \<Rightarrow> string list
    \<Rightarrow> (int list, string list, string list) chunk" where
  "demo_chunk i d u e m ws =
     \<lparr> c_id = i, c_document_id = d, c_user_id = u, c_content = concat ws, c_chunk_index = 0,
       c_embedding = Some e, c_metadata = Some m, c_search_vector = Some ws \<rparr>"

definition demo_chunks :: "(int list, string list, string list) chunk list" where
  "demo_chunks =
     [demo_chunk ''c1'' ''d1'' ''alice'' [0, 1] [''memo''] [''dog'', ''cat''],
      demo_chunk ''c2'' ''d2'' ''bob'' [1, 0] [''report''] [''cat''],
      demo_chunk ''c3'' ''d1'' ''alice'' [3, 4] [''report''] [''cat'']]"

text \<open>A table with a chunk whose embedding is the zero vector.\<close>

definition zero_chunks :: "(int list, string list, string list) chunk list" where
  "zero_chunks =
     [demo_chunk ''z1'' ''d1'' ''alice'' [0, 0] [''memo''] [''dog''],
      demo_chunk ''z2'' ''d1'' ''alice'' [1, 0] [''memo''] [''cat'']]"

section \<open>Documents, chunks and the foreign keys between them\<close>

text \<open>
  The tables \<open>documents\<close> and \<open>chunks\<close> of the migrations, with the columns later migrations
  add (\<open>content_hash\<close>, \<open>metadata\<close>, \<open>search_vector\<close>). \<open>auth.users\<close> belongs to the
  platform; only its \<open>id\<close> column is referenced.
\<close>

datatype doc_status = Pending | Processing | Completed | Failed

record 'j document =
  d_id :: uuid
  d_user_id :: uuid
  d_filename :: string
  d_file_type :: string
  d_file_size :: int
  d_storage_path :: string
  d_status :: doc_status
  d_error_message :: "string option"
  d_chunk_count :: "int option"
  d_content_hash :: "string option"
  d_metadata :: "'j option"

record ('e, 'j, 'v) database =
  db_users :: "uuid list"
  db_documents :: "'j document list"
  db_chunks :: "('e, 'j, 'v) chunk list"

definition empty_db :: "('e, 'j, 'v) database" where
  "empty_db = \<lparr> db_users = [], db_documents = [], db_chunks = [] \<rparr>"

text \<open>
  The statements that insert, delete or re-parent rows of the three tables, under the
  constraints the schema declares:
  \<^item> \<open>id\<close> is the primary key of each table;
  \<^item> \<open>documents.user_id\<close> and \<open>chunks.user_id\<close> reference \<open>auth.users(id)\<close>, and
    \<open>chunks.document_id\<close> references \<open>documents(id)\<close>, all three \<open>ON DELETE CASCADE\<close>.
  An insert or update that breaks a constraint is rejected and leaves the tables as they
  were; a delete takes the referencing rows with it.
\<close>

datatype ('e, 'j, 'v) stmt =
    InsertUser uuid
  | DeleteUser uuid
  | InsertDocument "'j document"
  | DeleteDocument uuid
  | InsertChunk "('e, 'j, 'v) chunk"
  | DeleteChunk uuid
  | UpdateChunkDocument uuid uuid

datatype db_error = UniqueViolation | ForeignKeyViolation

definition delete_documents_where ::
    "('j document \<Rightarrow> bool) \<Rightarrow> ('e, 'j, 'v) database \<Rightarrow> ('e, 'j, 'v) database" where
  "delete_documents_where P db =
     (let gone = map d_id (filter P (db_documents db)) in
      db \<lparr> db_documents := filter (\<lambda>d. \<not> P d) (db_documents db),
           db_chunks := filter (\<lambda>c. c_document_id c \<notin> set gone) (db_chunks db) \<rparr>)"

fun exec :: "('e, 'j, 'v) stmt \<Rightarrow> ('e, 'j, 'v) database \<Rightarrow> db_error + ('e, 'j, 'v) database" where
  "exec (InsertUser u) db =
     (if u \<in> set (db_users db) then Inl UniqueViolation
      else Inr (db \<lparr> db_users := db_users db @ [u] \<rparr>))"
| "exec (DeleteUser u) db =
     (let db1 = delete_documents_where (\<lambda>d. d_user_id d = u) db in
      Inr (db1 \<lparr> db_users := filter (\<lambda>v. v \<noteq> u) (db_users db1),
                 db_chunks := filter (\<lambda>c. c_user_id c \<noteq> u) (db_chunks db1) \<rparr>))"
| "exec (InsertDocument d) db =
     (if d_id d \<in> set (map d_id (db_documents db)) then Inl UniqueViolation
      else if d_user_id d \<notin> set (db_users db) then Inl ForeignKeyViolation
      else Inr (db \<lparr> db_documents := db_documents db @ [d] \<rparr>))"
| "exec (DeleteDocument i) db = Inr (delete_documents_where (\<lambda>d. d_id d = i) db)"
| "exec (InsertChunk c) db =
     (if c_id c \<in> set (map c_id (db_chunks db)) then Inl UniqueViolation
      else if c_document_id c \<notin> set (map d_id (db_documents db)) then Inl ForeignKeyViolation
      else if c_user_id c \<notin> set (db_users db) then Inl ForeignKeyViolation
      else Inr (db \<lparr> db_chunks := db_chunks db @ [c] \<rparr>))"
| "exec (DeleteChunk i) db = Inr (db \<lparr> db_chunks := filter (\<lambda>c. c_id c \<noteq> i) (db_chunks db) \<rparr>)"
| "exec (UpdateChunkDocument i d) db =
     (if \<not> list_ex (\<lambda>c. c_id c = i) (db_chunks db) then Inr db
      else if d \<notin> set (map d_id (db_documents db)) then Inl ForeignKeyViolation
      else Inr (db \<lparr> db_chunks :=
                       map (\<lambda>c. if c_id c = i then c \<lparr> c_document_id := d \<rparr> else c) (db_chunks db) \<rparr>))"

text \<open>The states the tables can be in: created empty, then changed by accepted statements.\<close>

inductive reachable :: "('e, 'j, 'v) database \<Rightarrow> bool" where
  reachable_empty: "reachable empty_db"
| reachable_exec: "reachable db \<Longrightarrow> exec st db = Inr db' \<Longrightarrow> reachable db'"

text \<open>The referential integrity of \<open>chunks.document_id\<close>, as a check on a state.\<close>

definition chunks_have_documents :: "('e, 'j, 'v) database \<Rightarrow> bool" where
  "chunks_have_documents db =
     list_all (\<lambda>c. c_document_id c \<in> set (map d_id (db_documents db))) (db_chunks db)"

definition demo_document :: "uuid \<Rightarrow> uuid \<Rightarrow> string \<Rightarrow> string list document" where
  "demo_document i u name =
     \<lparr> d_id = i, d_user_id = u, d_filename = name, d_file_type = ''txt'', d_file_size = 3,
       d_storage_path = u @ ''/'' @ name, d_status = Completed, d_error_message = None,
       d_chunk_count = Some 1, d_content_hash = None, d_metadata = None \<rparr>"

definition demo_db :: "(int list, string list, string list) database" where
  "demo_db =
     \<lparr> db_users = [''alice'', ''bob''],
       db_documents = [demo_document ''d1'' ''alice'' ''a.txt'', demo_document ''d2'' ''bob'' ''b.txt''],
       db_chunks = demo_chunks \<rparr>"

section \<open>The chat stream consumer (\<open>sendMessage\<close>)\<close>

text \<open>
  Text is a list of characters with codes 0 to 255; the line feed is character 10. A chunk
  is the text the decoder hands over for one \<open>reader.read()\<close>.
\<close>

definition newline :: char where
  "newline = CHR 0x0A"

text \<open>
  \<open>s.split(sep)\<close> for a separator of one character: never empty; \<open>''.split(sep)\<close> is
  \<open>['']\<close>.
\<close>

fun js_split :: "char \<Rightarrow> string \<Rightarrow> string list" where
  "js_split sep [] = [[]]"
| "js_split sep (c # cs) =
     (if c = sep then [] # js_split sep cs
      else (case js_split sep cs of [] \<Rightarrow> [[c]] | l # ls \<Rightarrow> (c # l) # ls))"

abbreviation split_nl :: "string \<Rightarrow> string list" where
  "split_nl \<equiv> js_split newline"

text \<open>\<open>xs.pop()\<close>: the last element (\<open>undefined\<close> on an empty array) and the array without it.\<close>

definition js_pop :: "'a list \<Rightarrow> 'a option \<times> 'a list" where
  "js_pop xs = (case rev xs of [] \<Rightarrow> (None, []) | x # rest \<Rightarrow> (Some x, rev rest))"

definition starts_with :: "string \<Rightarrow> string \<Rightarrow> bool" where
  "starts_with s p = (take (length p) s = p)"

text \<open>
  \<open>s.trim()\<close> strips white space and line terminators at both ends; among the characters
  0 to 255 these are tab, line feed, vertical tab, form feed, carriage return, space and
  the no-break space.
\<close>

definition js_whitespace :: "char \<Rightarrow> bool" where
  "js_whitespace c = (c \<in> set [CHR 0x09, CHR 0x0A, CHR 0x0B, CHR 0x0C, CHR 0x0D, CHR 0x20, CHR 0xA0])"

definition trim :: "string \<Rightarrow> string" where
  "trim s = rev (dropWhile js_whitespace (rev (dropWhile js_whitespace s)))"

text \<open>
  What \<open>JSON.parse\<close> returns; an object lists its keys, each once, with their values. The
  parser itself belongs to the JavaScript runtime and is a parameter of the consumer:
  \<open>None\<close> when it throws a \<open>SyntaxError\<close>.
\<close>

datatype json =
    JNull
  | JBool bool
  | JNum real
  | JStr string
  | JArr "json list"
  | JObj "(string \<times> json) list"

text \<open>
  \<open>parsed.content\<close> and \<open>parsed.error\<close>: reading a property of \<open>null\<close> throws a
  \<open>TypeError\<close> (the outer \<open>None\<close>); on an object the value of the key, \<open>undefined\<close> (the inner
  \<open>None\<close>) when it has none; on a number, string, boolean or array \<open>undefined\<close>, since no
  prototype defines \<open>content\<close> or \<open>error\<close>.
\<close>

fun property :: "json \<Rightarrow> string \<Rightarrow> json option option" where
  "property JNull k = None"
| "property (JObj kvs) k = Some (map_of kvs k)"
| "property v k = Some None"

fun truthy :: "json \<Rightarrow> bool" where
  "truthy JNull = False"
| "truthy (JBool b) = b"
| "truthy (JNum n) = (n \<noteq> 0)"
| "truthy (JStr s) = (s \<noteq> [])"
| "truthy (JArr vs) = True"
| "truthy (JObj kvs) = True"

text \<open>The handlers \<open>sendMessage\<close> takes from its options, as the calls it makes.\<close>

datatype callback =
    is_OnTextDelta: OnTextDelta json
  | is_OnDone: OnDone
  | is_OnError: OnError json

text \<open>
  The body of \<open>if (line.startsWith('data: '))\<close>: the \<open>try\<close> block, whose \<open>catch\<close> ignores
  whatever \<open>JSON.parse\<close> or the property reads throw.
\<close>

definition on_data :: "(string \<Rightarrow> json option) \<Rightarrow> string \<Rightarrow> callback list" where
  "on_data JSON_parse data =
     (case JSON_parse data of
        None \<Rightarrow> []
      | Some parsed \<Rightarrow>
          (case property parsed ''content'' of
             None \<Rightarrow> []
           | Some content \<Rightarrow>
               (case content of Some v \<Rightarrow> if truthy v then [OnTextDelta v] else [] | None \<Rightarrow> []) @
               (case property parsed ''error'' of
                  None \<Rightarrow> []
                | Some err \<Rightarrow>
                    (case err of Some e \<Rightarrow> if truthy e then [OnError e] else [] | None \<Rightarrow> []))))"

text \<open>The body of \<open>for (const line of lines)\<close>.\<close>

definition handle_line :: "(string \<Rightarrow> json option) \<Rightarrow> string \<Rightarrow> callback list" where
  "handle_line JSON_parse line =
     (if starts_with line ''event: '' then
        (let eventType = trim (drop 7 line) in
         if eventType = ''done'' then [OnDone] else [])
      else if starts_with line ''data: '' then on_data JSON_parse (drop 6 line)
      else [])"

text \<open>
  The \<open>while (true)\<close> loop over the chunks that \<open>reader.read()\<close> delivers, until \<open>done\<close>; the
  result is the sequence of handler calls.
\<close>

fun sse_loop :: "(string \<Rightarrow> json option) \<Rightarrow> string \<Rightarrow> string list \<Rightarrow> callback list" where
  "sse_loop JSON_parse buffer [] = []"
| "sse_loop JSON_parse buffer (chunk # rest) =
     (case js_pop (split_nl (buffer @ chunk)) of
        (popped, lines) \<Rightarrow>
          concat (map (handle_line JSON_parse) lines) @
          sse_loop JSON_parse
            (case popped of None \<Rightarrow> [] | Some l \<Rightarrow> if l = [] then [] else l) rest)"

text \<open>
  \<open>sendMessage\<close>: the session, then the response \<open>fetch\<close> resolves to (its \<open>ok\<close> flag, the
  \<open>detail\<close> of its JSON error body when that can be read, and the chunks of its body when it
  has one), read to the end of the stream. \<open>Inl\<close> is the message of the \<open>Error\<close> thrown,
  \<open>Inr\<close> the handler calls made.
\<close>

record http_response =
  resp_ok :: bool
  resp_detail :: "string option"
  resp_body :: "string list option"

definition error_detail :: "string option \<Rightarrow> string \<Rightarrow> string" where
  "error_detail detail fallback =
     (case detail of None \<Rightarrow> fallback | Some d \<Rightarrow> if d = [] then fallback else d)"

definition sendMessage ::
    "(string \<Rightarrow> json option) \<Rightarrow> string option \<Rightarrow> http_response \<Rightarrow> string + callback list" where
  "sendMessage JSON_parse session response =
     (case session of
        None \<Rightarrow> Inl ''Not authenticated''
      | Some access_token \<Rightarrow>
          if \<not> resp_ok response then Inl (error_detail (resp_detail response) ''Request failed'')
          else (case resp_body response of
                  None \<Rightarrow> Inl ''No response body''
                | Some chunks \<Rightarrow> Inr (sse_loop JSON_parse [] chunks)))"

text \<open>The lines of a text that end with a line feed.\<close>

definition complete_lines :: "string \<Rightarrow> string list" where
  "complete_lines s = butlast (split_nl s)"




text \<open>A stand-in for \<open>JSON.parse\<close> that knows five documents.\<close>

definition demo_JSON_parse :: "string \<Rightarrow> json option" where
  \<open>demo_JSON_parse s =
     (if s = ''{"content":"Hi"}'' then Some (JObj [(''content'', JStr ''Hi'')])
      else if s = ''{"error":"boom"}'' then Some (JObj [(''error'', JStr ''boom'')])
      else if s = ''{"content":"Hi","error":"boom"}''
        then Some (JObj [(''content'', JStr ''Hi''), (''error'', JStr ''boom'')])
      else if s = ''{"sources":[]}'' then Some (JObj [(''sources'', JArr [])])
      else if s = ''{}'' then Some (JObj [])
      else None)\<close>

text \<open>A line of the stream: the text and its line feed.\<close>

definition line_of :: "string \<Rightarrow> string" where
  "line_of s = s @ [newline]"

definition ok_response :: "string list \<Rightarrow> http_response" where
  "ok_response chunks = \<lparr> resp_ok = True, resp_detail = None, resp_body = Some chunks \<rparr>"

section \<open>Uploading documents (\<open>DocumentUpload\<close>, \<open>uploadDocument\<close>)\<close>

text \<open>
  A \<open>File\<close>: its name, its size in bytes and its bytes. \<open>toLowerCase\<close> on the characters 0 to
  255 maps \<open>A\<close>--\<open>Z\<close> and the accented capitals 192--222 (but the multiplication sign 215) 32
  places up and leaves the rest.
\<close>

record js_file =
  f_name :: string
  f_size :: nat
  f_bytes :: string

definition js_lower :: "char \<Rightarrow> char" where
  "js_lower c =
     (let n = (of_char c :: nat) in
      if (65 \<le> n \<and> n \<le> 90) \<or> (192 \<le> n \<and> n \<le> 222 \<and> n \<noteq> 215) then char_of (n + 32) else c)"

definition toLowerCase :: "string \<Rightarrow> string" where
  "toLowerCase s = map js_lower s"

fun js_join :: "string \<Rightarrow> string list \<Rightarrow> string" where
  "js_join sep [] = []"
| "js_join sep [x] = x"
| "js_join sep (x # y # ys) = x @ sep @ js_join sep (y # ys)"

definition ALLOWED_EXTENSIONS :: "string list" where
  "ALLOWED_EXTENSIONS = [''.txt'', ''.md'']"

text \<open>
  \<open>'.' + file.name.split('.').pop()?.toLowerCase()\<close>: the last piece of the name between
  dots, in lower case, after a dot. A name without a dot is its own last piece.
\<close>

definition file_ext :: "string \<Rightarrow> string" where
  "file_ext name =
     ''.'' @ (case fst (js_pop (js_split (CHR ''.'') name)) of
               None \<Rightarrow> ''undefined''
             | Some piece \<Rightarrow> toLowerCase piece)"

text \<open>
  The extension of a file name as the allowlist \<open>.txt, .md\<close> reads it: the name's part from
  its last dot on, in lower case, when that dot is not the first character of the name.
  A name without such a dot has no extension, and a name is allowed when it has an
  extension and the allowlist holds it.
\<close>

definition spec_extension :: "string \<Rightarrow> string option" where
  "spec_extension name = (if CHR ''.'' \<in> set (tl name) then Some (file_ext name) else None)"

definition spec_allowed :: "string \<Rightarrow> bool" where
  "spec_allowed name =
     (case spec_extension name of None \<Rightarrow> False | Some ext \<Rightarrow> ext \<in> set ALLOWED_EXTENSIONS)"

definition validateFile :: "js_file \<Rightarrow> string option" where
  "validateFile file =
     (let ext = file_ext (f_name file) in
      if ext \<notin> set ALLOWED_EXTENSIONS
        then Some (''Unsupported file type. Allowed: '' @ js_join '', '' ALLOWED_EXTENSIONS)
      else if f_size file > 10 * 1024 * 1024
        then Some ''File too large. Maximum size is 10 MB.''
      else None)"

text \<open>
  What \<open>fetch\<close> gives for a request: it rejects (a network failure), or the response is not
  \<open>ok\<close> (with the \<open>detail\<close> of its JSON body when there is one), or it is \<open>ok\<close> with a JSON
  body.
\<close>

datatype 'r http_result = FetchRejected string | HttpError "string option" | HttpOk 'r

text \<open>
  The JSON body of an accepted upload: the document summary and the flag \<open>skipped\<close>.
\<close>

record 'j upload_result =
  ur_document :: "'j document"
  ur_skipped :: bool

text \<open>
  \<open>uploadDocument\<close>. The world \<open>'w\<close> holds whatever the session lookup and the server depend
  on and change; \<open>Inl\<close> is the message of the \<open>Error\<close> thrown.
\<close>

definition uploadDocument ::
    "('w \<Rightarrow> string option) \<Rightarrow> ('w \<Rightarrow> string \<Rightarrow> js_file \<Rightarrow> 'w \<times> 'j upload_result http_result)
       \<Rightarrow> 'w \<Rightarrow> js_file \<Rightarrow> 'w \<times> (string + 'j upload_result)" where
  "uploadDocument getSession post_upload w file =
     (case getSession w of
        None \<Rightarrow> (w, Inl ''Not authenticated'')
      | Some access_token \<Rightarrow>
          (case post_upload w access_token file of
             (w', FetchRejected msg) \<Rightarrow> (w', Inl msg)
           | (w', HttpError detail) \<Rightarrow> (w', Inl (error_detail detail ''Upload failed''))
           | (w', HttpOk result) \<Rightarrow> (w', Inr result)))"

text \<open>The state of the \<open>DocumentUpload\<close> component that \<open>handleUpload\<close> sets.\<close>

record upload_ui =
  ui_uploading :: bool
  ui_error :: "string option"
  ui_info :: "string option"

text \<open>
  The first loop of \<open>handleUpload\<close>: the error of the first file that fails validation.
\<close>

fun first_validation_error :: "js_file list \<Rightarrow> string option" where
  "first_validation_error [] = None"
| "first_validation_error (file # files) =
     (case validateFile file of
        Some validationError \<Rightarrow> Some validationError
      | None \<Rightarrow> first_validation_error files)"

text \<open>
  The second loop, inside \<open>try\<close>: one \<open>uploadDocument\<close> per file, in order, until one throws.
  It gives the world after the requests, the files requested, and either the message
  thrown or \<open>skippedFiles\<close>.
\<close>

fun upload_all ::
    "('w \<Rightarrow> js_file \<Rightarrow> 'w \<times> (string + 'j upload_result)) \<Rightarrow> 'w \<Rightarrow> js_file list \<Rightarrow> string list
       \<Rightarrow> 'w \<times> js_file list \<times> (string + string list)" where
  "upload_all upload w [] skippedFiles = (w, [], Inr skippedFiles)"
| "upload_all upload w (file # files) skippedFiles =
     (case upload w file of
        (w1, Inl msg) \<Rightarrow> (w1, [file], Inl msg)
      | (w1, Inr result) \<Rightarrow>
          (case upload_all upload w1 files
                  (if ur_skipped result then skippedFiles @ [f_name file] else skippedFiles) of
             (w2, requested, outcome) \<Rightarrow> (w2, file # requested, outcome)))"

text \<open>The dash U+2014 of the message, in UTF-8.\<close>

definition em_dash :: string where
  "em_dash = [CHR 0xE2, CHR 0x80, CHR 0x94]"

definition skipped_message :: "string list \<Rightarrow> string" where
  \<open>skipped_message skippedFiles =
     ''"'' @ js_join ''", "'' skippedFiles @ ''" is unchanged '' @ em_dash @ '' skipped re-processing.''\<close>

text \<open>
  \<open>handleUpload\<close>: the world and the component state after it, the files for which an
  upload request was issued, and whether \<open>onUploadComplete\<close> was called.
\<close>

record 'w upload_outcome =
  out_world :: 'w
  out_ui :: upload_ui
  out_requested :: "js_file list"
  out_completed :: bool

definition handleUpload ::
    "('w \<Rightarrow> js_file \<Rightarrow> 'w \<times> (string + 'j upload_result)) \<Rightarrow> 'w \<Rightarrow> upload_ui \<Rightarrow> js_file list
       \<Rightarrow> 'w upload_outcome" where
  "handleUpload upload w ui fileArray =
     (let ui0 = ui \<lparr> ui_error := None, ui_info := None \<rparr> in
      case first_validation_error fileArray of
        Some validationError \<Rightarrow>
          \<lparr> out_world = w, out_ui = ui0 \<lparr> ui_error := Some validationError \<rparr>,
            out_requested = [], out_completed = False \<rparr>
      | None \<Rightarrow>
          (case upload_all upload w fileArray [] of
             (w', requested, Inl msg) \<Rightarrow>
               \<lparr> out_world = w', out_ui = ui0 \<lparr> ui_error := Some msg, ui_uploading := False \<rparr>,
                 out_requested = requested, out_completed = False \<rparr>
           | (w', requested, Inr skippedFiles) \<Rightarrow>
               \<lparr> out_world = w',
                 out_ui = ui0 \<lparr> ui_info := (if skippedFiles \<noteq> [] then Some (skipped_message skippedFiles)
                                              else None),
                               ui_uploading := False \<rparr>,
                 out_requested = requested, out_completed = True \<rparr>))"

section \<open>The upload endpoint behind \<open>uploadDocument\<close>\<close>

text \<open>
  The server side of an upload, as the specification describes it (Record Manager, Indexer,
  Upload interface). The hash function, the creation of a document row and the pipeline
  that turns a file into chunks are parameters.
\<close>

record ('e, 'j, 'v) backend =
  fingerprint :: "string \<Rightarrow> string"
  new_document :: "('e, 'j, 'v) database \<Rightarrow> uuid \<Rightarrow> js_file \<Rightarrow> 'j document"
  ingest :: "'j document \<Rightarrow> js_file \<Rightarrow> string + ('e, 'j, 'v) chunk list"

datatype decision = New | Changed | Unchanged

text \<open>
  Modelled from the spec: the lookup of the Record Manager, absent from the sources: "the
  most recent Document for (owner, filename)". Rows are in insertion order.
\<close>

definition latest_document :: "('e, 'j, 'v) database \<Rightarrow> uuid \<Rightarrow> string \<Rightarrow> 'j document option" where
  "latest_document db owner filename =
     (case rev (filter (\<lambda>d. d_user_id d = owner \<and> d_filename d = filename) (db_documents db)) of
        [] \<Rightarrow> None
      | d # older \<Rightarrow> Some d)"

text \<open>
  Modelled from the spec: \<open>decide(owner, filename, rawBytes)\<close> of the Record Manager, absent
  from the sources: no document gives \<open>new\<close>, an equal fingerprint \<open>unchanged\<close>, a different
  one \<open>changed\<close>.
\<close>

definition decide ::
    "('e, 'j, 'v) backend \<Rightarrow> ('e, 'j, 'v) database \<Rightarrow> uuid \<Rightarrow> string \<Rightarrow> string \<Rightarrow> decision" where
  "decide B db owner filename rawBytes =
     (case latest_document db owner filename of
        None \<Rightarrow> New
      | Some d \<Rightarrow> if d_content_hash d = Some (fingerprint B rawBytes) then Unchanged else Changed)"

text \<open>
  Modelled from the spec: the Indexer's write for one document, absent from the sources:
  the prior chunks of the document are deleted, the new ones written, and the document
  ends \<open>completed\<close> with its chunk count, or \<open>failed\<close> with the error message and no chunk.
\<close>

definition index_document ::
    "('e, 'j, 'v) backend \<Rightarrow> ('e, 'j, 'v) database \<Rightarrow> 'j document \<Rightarrow> js_file
       \<Rightarrow> ('e, 'j, 'v) database \<times> 'j document" where
  "index_document B db d file =
     (let others = filter (\<lambda>x. d_id x \<noteq> d_id d) (db_documents db);
          kept = filter (\<lambda>c. c_document_id c \<noteq> d_id d) (db_chunks db);
          d1 = d \<lparr> d_content_hash := Some (fingerprint B (f_bytes file)), d_file_size := int (f_size file) \<rparr> in
      case ingest B d1 file of
        Inl msg \<Rightarrow>
          (let d2 = d1 \<lparr> d_status := Failed, d_error_message := Some msg, d_chunk_count := Some 0 \<rparr> in
           (db \<lparr> db_documents := others @ [d2], db_chunks := kept \<rparr>, d2))
      | Inr cs \<Rightarrow>
          (let d2 = d1 \<lparr> d_status := Completed, d_error_message := None,
                          d_chunk_count := Some (int (length cs)) \<rparr> in
           (db \<lparr> db_documents := others @ [d2], db_chunks := kept @ cs \<rparr>, d2)))"

text \<open>
  Modelled from the spec: the Upload interface, absent from the sources: it "returns the
  created/updated Document summary, including a flag indicating the upload was skipped as
  unchanged"; on \<open>unchanged\<close> re-processing is skipped.
\<close>

definition upload_endpoint ::
    "('e, 'j, 'v) backend \<Rightarrow> ('e, 'j, 'v) database \<Rightarrow> uuid \<Rightarrow> js_file
       \<Rightarrow> ('e, 'j, 'v) database \<times> 'j upload_result http_result" where
  "upload_endpoint B db owner file =
     (case latest_document db owner (f_name file) of
        None \<Rightarrow>
          (case index_document B db (new_document B db owner file) file of
             (db', d) \<Rightarrow> (db', HttpOk \<lparr> ur_document = d, ur_skipped = False \<rparr>))
      | Some prior \<Rightarrow>
          (case decide B db owner (f_name file) (f_bytes file) of
             Unchanged \<Rightarrow> (db, HttpOk \<lparr> ur_document = prior, ur_skipped = True \<rparr>)
           | other \<Rightarrow>
               (case index_document B db prior file of
                  (db', d) \<Rightarrow> (db', HttpOk \<lparr> ur_document = d, ur_skipped = False \<rparr>))))"

text \<open>
  The world of the browser: the session (its access token names the user) and, behind
  \<open>fetch\<close>, the database of the server. \<open>post_upload\<close> is the request of \<open>uploadDocument\<close>
  against the endpoint; \<open>down\<close> lists the file names for which the network fails.
\<close>

record ('e, 'j, 'v) world =
  w_session :: "string option"
  w_db :: "('e, 'j, 'v) database"

definition post_upload ::
    "('e, 'j, 'v) backend \<Rightarrow> string list \<Rightarrow> ('e, 'j, 'v) world \<Rightarrow> string \<Rightarrow> js_file
       \<Rightarrow> ('e, 'j, 'v) world \<times> 'j upload_result http_result" where
  "post_upload B down w access_token file =
     (if f_name file \<in> set down then (w, FetchRejected ''Failed to fetch'')
      else (case upload_endpoint B (w_db w) access_token file of
              (db', reply) \<Rightarrow> (w \<lparr> w_db := db' \<rparr>, reply)))"

definition demo_backend :: "(int list, string list, string list) backend" where
  "demo_backend =
     \<lparr> fingerprint = rev,
       new_document = (\<lambda>db owner file.
          (demo_document (''d'' @ f_name file) owner (f_name file)) \<lparr> d_status := Pending \<rparr>),
       ingest = (\<lambda>d file.
          Inr [demo_chunk (''c'' @ d_id d) (d_id d) (d_user_id d) [1, 0] [] [f_bytes file]]) \<rparr>"

definition demo_world :: "(int list, string list, string list) world" where
  "demo_world =
     \<lparr> w_session = Some ''alice'',
       w_db = demo_db \<lparr> db_documents :=
                map (\<lambda>d. d \<lparr> d_content_hash := Some (rev ''dogcat'') \<rparr>) (db_documents demo_db) \<rparr> \<rparr>"

definition demo_ui :: upload_ui where
  "demo_ui = \<lparr> ui_uploading = False, ui_error = Some ''old error'', ui_info = None \<rparr>"

definition demo_file :: "string \<Rightarrow> string \<Rightarrow> js_file" where
  "demo_file name bytes = \<lparr> f_name = name, f_size = length bytes, f_bytes = bytes \<rparr>"

definition demo_upload ::
    "string list \<Rightarrow> (int list, string list, string list) world \<Rightarrow> js_file
       \<Rightarrow> (int list, string list, string list) world \<times> (string + string list upload_result)" where
  "demo_upload down = uploadDocument w_session (post_upload demo_backend down)"

section \<open>Global settings (\<open>SettingsPage\<close>, \<open>updateSettings\<close>)\<close>

text \<open>
  The single row of \<open>global_settings\<close> (with the reranker columns of the hybrid-search
  migration), and the body of a \<open>PUT /settings\<close> request: a key may be absent (\<open>None\<close>),
  \<open>null\<close> (\<open>Some None\<close>) or carry a value.
\<close>

record global_settings =
  s_llm_model :: "string option"
  s_llm_base_url :: "string option"
  s_llm_api_key :: "string option"
  s_embedding_model :: "string option"
  s_embedding_base_url :: "string option"
  s_embedding_api_key :: "string option"
  s_embedding_dimensions :: "int option"
  s_reranker_api_key :: "string option"
  s_reranker_model :: "string option"

record settings_update =
  u_llm_model :: "string option option"
  u_llm_base_url :: "string option option"
  u_llm_api_key :: "string option option"
  u_embedding_model :: "string option option"
  u_embedding_base_url :: "string option option"
  u_embedding_api_key :: "string option option"
  u_embedding_dimensions :: "int option option"
  u_reranker_model :: "string option option"
  u_reranker_api_key :: "string option option"

text \<open>The form state of \<open>SettingsPage\<close> and what \<open>handleSave\<close> sets.\<close>

record settings_form =
  llmModel :: string
  llmBaseUrl :: string
  llmApiKey :: string
  embeddingModel :: string
  embeddingBaseUrl :: string
  embeddingApiKey :: string
  embeddingDimensions :: string
  rerankerModel :: string
  rerankerApiKey :: string

record settings_ui =
  su_saving :: bool
  su_success :: bool
  su_error :: "string option"

text \<open>\<open>x || null\<close> on a string.\<close>

definition or_null :: "string \<Rightarrow> string option" where
  "or_null x = (if x = [] then None else Some x)"

text \<open>
  The update \<open>handleSave\<close> builds: every key is present. \<open>parseInt(_, 10)\<close> belongs to the
  runtime and is a parameter: \<open>None\<close> is \<open>NaN\<close>, which JSON writes as \<open>null\<close>.
\<close>

definition form_update :: "(string \<Rightarrow> int option) \<Rightarrow> settings_form \<Rightarrow> settings_update" where
  "form_update parseInt form =
     \<lparr> u_llm_model = Some (or_null (llmModel form)),
       u_llm_base_url = Some (or_null (llmBaseUrl form)),
       u_llm_api_key = Some (or_null (llmApiKey form)),
       u_embedding_model = Some (or_null (embeddingModel form)),
       u_embedding_base_url = Some (or_null (embeddingBaseUrl form)),
       u_embedding_api_key = Some (or_null (embeddingApiKey form)),
       u_embedding_dimensions =
         Some (if embeddingDimensions form \<noteq> [] then parseInt (embeddingDimensions form) else None),
       u_reranker_model = Some (or_null (rerankerModel form)),
       u_reranker_api_key = Some (or_null (rerankerApiKey form)) \<rparr>"

text \<open>
  \<open>updateSettings\<close>, that is \<open>fetchApi('/settings', PUT)\<close>: \<open>Inl\<close> is the message of the
  \<open>Error\<close> thrown.
\<close>

definition updateSettings ::
    "('w \<Rightarrow> string option) \<Rightarrow> ('w \<Rightarrow> string \<Rightarrow> settings_update \<Rightarrow> 'w \<times> 'r http_result)
       \<Rightarrow> 'w \<Rightarrow> settings_update \<Rightarrow> 'w \<times> (string + 'r)" where
  "updateSettings getSession put_settings w settings =
     (case getSession w of
        None \<Rightarrow> (w, Inl ''Not authenticated'')
      | Some access_token \<Rightarrow>
          (case put_settings w access_token settings of
             (w', FetchRejected msg) \<Rightarrow> (w', Inl msg)
           | (w', HttpError detail) \<Rightarrow> (w', Inl (error_detail detail ''Request failed''))
           | (w', HttpOk result) \<Rightarrow> (w', Inr result)))"

definition handleSave ::
    "(string \<Rightarrow> int option) \<Rightarrow> ('w \<Rightarrow> settings_update \<Rightarrow> 'w \<times> (string + 'r))
       \<Rightarrow> 'w \<Rightarrow> settings_form \<Rightarrow> settings_ui \<Rightarrow> 'w \<times> settings_ui" where
  "handleSave parseInt update_settings_call w form ui =
     (case update_settings_call w (form_update parseInt form) of
        (w', Inl msg) \<Rightarrow> (w', \<lparr> su_saving = False, su_success = False, su_error = Some msg \<rparr>)
      | (w', Inr result) \<Rightarrow> (w', \<lparr> su_saving = False, su_success = True, su_error = None \<rparr>))"

subsection \<open>The settings endpoint\<close>

datatype settings_error = ConsistencyError

text \<open>The embedding-related fields: model, base URL, API key, dimensionality.\<close>

definition embedding_fields ::
    "global_settings \<Rightarrow> string option \<times> string option \<times> string option \<times> int option" where
  "embedding_fields st =
     (s_embedding_model st, s_embedding_base_url st, s_embedding_api_key st, s_embedding_dimensions st)"

definition touches_embedding :: "settings_update \<Rightarrow> bool" where
  "touches_embedding u =
     (u_embedding_model u \<noteq> None \<or> u_embedding_base_url u \<noteq> None \<or>
      u_embedding_api_key u \<noteq> None \<or> u_embedding_dimensions u \<noteq> None)"

definition set_field :: "'a option \<Rightarrow> 'a \<Rightarrow> 'a" where
  "set_field new old = (case new of None \<Rightarrow> old | Some v \<Rightarrow> v)"

definition apply_update :: "global_settings \<Rightarrow> settings_update \<Rightarrow> global_settings" where
  "apply_update st u =
     \<lparr> s_llm_model = set_field (u_llm_model u) (s_llm_model st),
       s_llm_base_url = set_field (u_llm_base_url u) (s_llm_base_url st),
       s_llm_api_key = set_field (u_llm_api_key u) (s_llm_api_key st),
       s_embedding_model = set_field (u_embedding_model u) (s_embedding_model st),
       s_embedding_base_url = set_field (u_embedding_base_url u) (s_embedding_base_url st),
       s_embedding_api_key = set_field (u_embedding_api_key u) (s_embedding_api_key st),
       s_embedding_dimensions = set_field (u_embedding_dimensions u) (s_embedding_dimensions st),
       s_reranker_api_key = set_field (u_reranker_api_key u) (s_reranker_api_key st),
       s_reranker_model = set_field (u_reranker_model u) (s_reranker_model st) \<rparr>"

text \<open>
  Modelled from the spec: the handler of \<open>PUT /settings\<close>, absent from the sources:
  "embedding-related fields are rejected if any Chunk exists anywhere in the system", with
  a \<open>ConsistencyError\<close>; otherwise the fields the request carries are stored. It gives the
  stored record after the request and the answer.
\<close>

definition update_settings ::
    "('e, 'j, 'v) chunk list \<Rightarrow> global_settings \<Rightarrow> settings_update
       \<Rightarrow> global_settings \<times> (settings_error + global_settings)" where
  "update_settings chunks st u =
     (if chunks \<noteq> [] \<and> touches_embedding u then (st, Inl ConsistencyError)
      else (apply_update st u, Inr (apply_update st u)))"

text \<open>
  The world of the settings page: the session, the chunks table and the stored settings
  behind \<open>fetch\<close>. \<open>detail_of\<close> is the text the server puts in the \<open>detail\<close> of an error.
\<close>

record ('e, 'j, 'v) settings_world =
  sw_session :: "string option"
  sw_chunks :: "('e, 'j, 'v) chunk list"
  sw_settings :: global_settings

definition put_settings ::
    "(settings_error \<Rightarrow> string) \<Rightarrow> ('e, 'j, 'v) settings_world \<Rightarrow> string \<Rightarrow> settings_update
       \<Rightarrow> ('e, 'j, 'v) settings_world \<times> global_settings http_result" where
  "put_settings detail_of w access_token u =
     (case update_settings (sw_chunks w) (sw_settings w) u of
        (st', Inl e) \<Rightarrow> (w \<lparr> sw_settings := st' \<rparr>, HttpError (Some (detail_of e)))
      | (st', Inr result) \<Rightarrow> (w \<lparr> sw_settings := st' \<rparr>, HttpOk result))"

definition demo_settings :: global_settings where
  "demo_settings =
     \<lparr> s_llm_model = Some ''gpt'', s_llm_base_url = None, s_llm_api_key = None,
       s_embedding_model = Some ''text-embedding-3-small'', s_embedding_base_url = None,
       s_embedding_api_key = None, s_embedding_dimensions = Some 1536,
       s_reranker_api_key = None, s_reranker_model = None \<rparr>"

definition demo_form :: settings_form where
  "demo_form =
     \<lparr> llmModel = ''gpt'', llmBaseUrl = [], llmApiKey = [],
       embeddingModel = ''text-embedding-3-small'', embeddingBaseUrl = [], embeddingApiKey = [],
       embeddingDimensions = ''3072'', rerankerModel = [], rerankerApiKey = [] \<rparr>"

definition demo_parseInt :: "string \<Rightarrow> int option" where
  "demo_parseInt s = (if s = ''3072'' then Some 3072 else if s = ''1536'' then Some 1536 else None)"

definition demo_detail :: "settings_error \<Rightarrow> string" where
  "demo_detail e = ''Cannot change embedding settings while chunks exist''"

definition demo_settings_world ::
    "(int list, string list, string list) chunk list \<Rightarrow> (int list, string list, string list) settings_world" where
  "demo_settings_world chunks =
     \<lparr> sw_session = Some ''admin'', sw_chunks = chunks, sw_settings = demo_settings \<rparr>"

section \<open>Properties of retrieval\<close>

lemma sql_where_and: "sql_where (sql_and a b) = (sql_where a \<and> sql_where b)"
  by (cases a; cases b) (auto simp: sql_where_def sql_and_def)

lemma sql_where_metadata_cond:
  "sql_where (metadata_cond pg f c) =
     (case f of None \<Rightarrow> True | Some j \<Rightarrow> (\<exists>m. c_metadata c = Some m \<and> jsonb_contains pg m j))"
  by (cases f; cases "c_metadata c")
     (auto simp: sql_where_def metadata_cond_def sql_or_def sql_is_null_def sql_strict_def)

lemma float8_gt_similarity:
  "float8_gt (similarity_of d) (Num t) = (d = NaN \<or> (\<exists>x. d = Num x \<and> t < 1 - x))"
  by (cases d) (simp_all add: similarity_of_def)

lemma match_where_kept:
  assumes "match_where pg q t u f c = Inr (Some h)"
  shows "fst h = c \<and> c_user_id c = u \<and> sql_where (metadata_cond pg f c) \<and>
         (\<exists>e. c_embedding c = Some e \<and> cosine_distance pg e q = Inr (snd h)) \<and>
         float8_gt (similarity_of (snd h)) (Num t)"
  using assms
  by (auto simp: match_where_def split: if_splits option.splits sum.splits)

lemma match_where_returns:
  assumes "\<And>e. c_embedding c = Some e \<Longrightarrow> \<exists>d. cosine_distance pg e q = Inr d"
  shows "\<exists>k. match_where pg q t u f c = Inr k"
proof (cases "c_embedding c")
  case None
  then show ?thesis by (simp add: match_where_def)
next
  case (Some e)
  with assms obtain d where "cosine_distance pg e q = Inr d" by blast
  with Some show ?thesis by (simp add: match_where_def)
qed

lemma sql_scan_Inr:
  "sql_scan w xs = Inr ys \<Longrightarrow> set ys = {y. \<exists>x\<in>set xs. w x = Inr (Some y)}"
proof (induction xs arbitrary: ys)
  case Nil
  then show ?case by auto
next
  case (Cons x xs)
  from Cons.prems obtain kept rest where k: "w x = Inr kept" and r: "sql_scan w xs = Inr rest"
    and ys: "ys = (case kept of None \<Rightarrow> rest | Some y \<Rightarrow> y # rest)"
    by (auto split: sum.splits)
  from Cons.IH [OF r] have "set rest = {y. \<exists>x\<in>set xs. w x = Inr (Some y)}" .
  with k ys show ?case by (cases kept) auto
qed

lemma sql_scan_returns:
  "(\<And>x. x \<in> set xs \<Longrightarrow> \<exists>k. w x = Inr k) \<Longrightarrow> \<exists>ys. sql_scan w xs = Inr ys"
proof (induction xs)
  case Nil
  show ?case by simp
next
  case (Cons x xs)
  from Cons.prems obtain k where k: "w x = Inr k" by auto
  from Cons obtain ys where "sql_scan w xs = Inr ys" by auto
  with k show ?case by simp
qed

lemma order_by_float8_set: "set (order_by_float8 k xs) = set xs"
  by (auto simp: order_by_float8_def)

lemma float8_not_gt_Num: "a \<noteq> NaN \<Longrightarrow> b \<noteq> NaN \<Longrightarrow>
    (\<not> float8_gt a b) = (num_value a \<le> num_value b)"
  by (cases a; cases b) auto

lemma order_by_float8_sorted:
  "sorted_wrt (\<lambda>a b. \<not> float8_gt (k a) (k b)) (order_by_float8 k xs)"
proof -
  let ?nums = "sort_key (\<lambda>x. num_value (k x)) (filter (\<lambda>x. k x \<noteq> NaN) xs)"
  let ?nans = "filter (\<lambda>x. k x = NaN) xs"
  have "sorted (map (\<lambda>x. num_value (k x)) ?nums)" by (rule sorted_sort_key)
  then have s: "sorted_wrt (\<lambda>a b. num_value (k a) \<le> num_value (k b)) ?nums"
    by (simp add: sorted_wrt_map)
  have 1: "sorted_wrt (\<lambda>a b. \<not> float8_gt (k a) (k b)) ?nums"
    by (rule sorted_wrt_mono_rel [OF _ s]) (simp add: float8_not_gt_Num)
  have 2: "sorted_wrt (\<lambda>a b. \<not> float8_gt (k a) (k b)) ?nans"
    by (rule sorted_wrt_mono_rel [of _ "\<lambda>a b. True"]) (auto simp: sorted_wrt_iff_nth_less)
  have 3: "\<forall>a\<in>set ?nums. \<forall>b\<in>set ?nans. \<not> float8_gt (k a) (k b)" by auto
  from 1 2 3 show ?thesis
    unfolding order_by_float8_def by (simp add: sorted_wrt_append)
qed

lemma similarity_order_distance:
  "\<not> float8_gt a b \<Longrightarrow> similarity_order (similarity_of a) (similarity_of b)"
  by (cases a; cases b) (simp_all add: similarity_of_def)

lemma match_candidates_hits:
  assumes "match_candidates pg chunks q t u f = Inr hits"
  shows "set hits = {h. \<exists>c\<in>set chunks. match_where pg q t u f c = Inr (Some h)}"
    and "sorted_wrt (\<lambda>a b. \<not> float8_gt (snd a) (snd b)) hits"
proof -
  from assms obtain kept where k: "sql_scan (match_where pg q t u f) chunks = Inr kept"
    and h: "hits = order_by_float8 snd kept"
    by (auto simp: match_candidates_def split: sum.splits)
  from sql_scan_Inr [OF k] h show "set hits = {h. \<exists>c\<in>set chunks. match_where pg q t u f c = Inr (Some h)}"
    by (simp add: order_by_float8_set)
  from h show "sorted_wrt (\<lambda>a b. \<not> float8_gt (snd a) (snd b)) hits"
    by (simp add: order_by_float8_sorted)
qed

lemma match_chunks_hits:
  assumes "match_chunks pg chunks q t n u f = Inr rows"
  shows "\<exists>hits all. match_candidates pg chunks q t u f = Inr all \<and> hits = take (nat n) all \<and>
           0 \<le> n \<and> rows = map match_select hits"
  using assms
  by (auto simp: match_chunks_def limit_count_def split: sum.splits if_splits)

lemma match_chunks_returned:
  assumes "match_chunks pg chunks q t n u f = Inr rows"
  shows "\<exists>hits. rows = map match_select hits \<and>
           (\<forall>h\<in>set hits. fst h \<in> set chunks \<and>
              (\<exists>e. c_embedding (fst h) = Some e \<and> cosine_distance pg e q = Inr (snd h)) \<and>
              (snd h = NaN \<or> (\<exists>x. snd h = Num x \<and> t < 1 - x))) \<and>
           sorted_wrt (\<lambda>a b. \<not> float8_gt (snd a) (snd b)) hits \<and>
           sorted_wrt (\<lambda>r s. similarity_order (similarity r) (similarity s)) rows \<and>
           int (length rows) \<le> n"
proof -
  from match_chunks_hits [OF assms] obtain hits all where
    c: "match_candidates pg chunks q t u f = Inr all" and h: "hits = take (nat n) all"
    and n: "0 \<le> n" and rows: "rows = map match_select hits" by blast
  note a = match_candidates_hits [OF c]
  have sub: "set hits \<subseteq> set all" unfolding h by (rule set_take_subset)
  have p: "\<forall>h\<in>set hits. fst h \<in> set chunks \<and>
              (\<exists>e. c_embedding (fst h) = Some e \<and> cosine_distance pg e q = Inr (snd h)) \<and>
              (snd h = NaN \<or> (\<exists>x. snd h = Num x \<and> t < 1 - x))"
  proof
    fix x assume "x \<in> set hits"
    with sub a(1) obtain c where c: "c \<in> set chunks" and w: "match_where pg q t u f c = Inr (Some x)"
      by auto
    from match_where_kept [OF w] c show "fst x \<in> set chunks \<and>
              (\<exists>e. c_embedding (fst x) = Some e \<and> cosine_distance pg e q = Inr (snd x)) \<and>
              (snd x = NaN \<or> (\<exists>y. snd x = Num y \<and> t < 1 - y))"
      by (simp add: float8_gt_similarity)
  qed
  have s: "sorted_wrt (\<lambda>a b. \<not> float8_gt (snd a) (snd b)) hits"
    unfolding h by (rule sorted_wrt_take [OF a(2)])
  have "sorted_wrt (\<lambda>a b. similarity_order (similarity_of (snd a)) (similarity_of (snd b))) hits"
    by (rule sorted_wrt_mono_rel [OF _ s]) (simp add: similarity_order_distance)
  then have r: "sorted_wrt (\<lambda>r s. similarity_order (similarity r) (similarity s)) rows"
    by (simp add: rows sorted_wrt_map match_select_def split_beta)
  have l: "int (length rows) \<le> n" using n by (simp add: rows h)
  from rows p s r l show ?thesis by blast
qed

lemma match_chunks_returns:
  assumes "0 \<le> n"
    and "\<forall>c\<in>set chunks. \<forall>e. c_embedding c = Some e \<longrightarrow> (\<exists>d. cosine_distance pg e q = Inr d)"
  shows "\<exists>rows. match_chunks pg chunks q t n u f = Inr rows"
proof -
  have "\<And>c. c \<in> set chunks \<Longrightarrow> \<exists>k. match_where pg q t u f c = Inr k"
    using assms(2) by (intro match_where_returns) blast
  from sql_scan_returns [of chunks "match_where pg q t u f", OF this]
  obtain kept where "sql_scan (match_where pg q t u f) chunks = Inr kept" by blast
  with assms(1) show ?thesis
    by (simp add: match_chunks_def limit_count_def match_candidates_def)
qed

lemma sql_where_keyword:
  "sql_where (keyword_where pg tsq u f c) =
     (c_user_id c = u \<and> (\<exists>v. c_search_vector c = Some v \<and> ts_match pg v tsq) \<and> sql_where (metadata_cond pg f c))"
  by (cases "c_search_vector c")
     (auto simp: keyword_where_def sql_where_and, auto simp: sql_where_def sql_strict_def)

lemma order_by_desc_set: "set (order_by_desc k xs) = set xs"
  by (auto simp: order_by_desc_def)

lemma sql_limit_Inr: "sql_limit n xs = Inr ys \<Longrightarrow> 0 \<le> n \<and> ys = take (nat n) xs"
  by (auto simp: sql_limit_def split: if_splits)

lemma keyword_candidates_set:
  "set (keyword_candidates pg chunks tsq u f) =
     {c \<in> set chunks. sql_where (keyword_where pg tsq u f c)}"
  by (auto simp: keyword_candidates_def order_by_desc_set)

lemma insort_key_map:
  "insort_key f (h x) (map h xs) = map h (insort_key (\<lambda>y. f (h y)) x xs)"
  by (induction xs) auto

lemma sort_key_map: "sort_key f (map h xs) = map h (sort_key (\<lambda>y. f (h y)) xs)"
  by (induction xs) (auto simp: insort_key_map)

lemma order_by_float8_map:
  "order_by_float8 k (map h xs) = map h (order_by_float8 (\<lambda>y. k (h y)) xs)"
  by (simp add: order_by_float8_def sort_key_map filter_map comp_def)

lemma order_by_desc_map: "order_by_desc k (map h xs) = map h (order_by_desc (\<lambda>y. k (h y)) xs)"
  by (simp add: order_by_desc_def sort_key_map filter_map comp_def)

lemma sql_scan_filter:
  assumes "\<And>x. \<not> P x \<Longrightarrow> w x = Inr None"
  shows "sql_scan w (filter P xs) = sql_scan w xs"
proof (induction xs)
  case Nil
  show ?case by simp
next
  case (Cons x xs)
  show ?case
  proof (cases "P x")
    case True
    with Cons show ?thesis by (cases "w x") simp_all
  next
    case False
    with assms have "w x = Inr None" by simp
    with False Cons show ?thesis by (cases "sql_scan w xs") simp_all
  qed
qed

lemma sql_scan_map:
  assumes "\<And>x. w' (h x) = map_sum id (map_option h') (w x)"
  shows "sql_scan w' (map h xs) = map_sum id (map h') (sql_scan w xs)"
proof (induction xs)
  case Nil
  show ?case by simp
next
  case (Cons x xs)
  show ?case
  proof (cases "w x")
    case (Inl e)
    with assms [of x] show ?thesis by simp
  next
    case (Inr kept)
    note k = this
    show ?thesis
    proof (cases "sql_scan w xs")
      case (Inl e)
      with k Cons assms [of x] show ?thesis by simp
    next
      case (Inr rest)
      with k Cons assms [of x] show ?thesis by (cases kept) simp_all
    qed
  qed
qed

lemma match_where_null_filter:
  "match_where pg q t u None (c_metadata_update g c) =
     map_sum id (map_option (apfst (c_metadata_update g))) (match_where pg q t u None c)"
  by (simp add: match_where_def metadata_cond_def sql_or_def sql_is_null_def sql_where_def
        split: option.splits sum.splits)

lemma keyword_where_null_filter:
  "keyword_where pg tsq u None (c_metadata_update g c) = keyword_where pg tsq u None c"
  by (simp add: keyword_where_def metadata_cond_def sql_or_def sql_is_null_def)

lemma rank_of_metadata_update:
  "rank_of pg tsq (c_metadata_update g c) = rank_of pg tsq c"
  by (simp add: rank_of_def)

lemma match_candidates_null_filter:
  "match_candidates pg (map (c_metadata_update g) chunks) q t u None =
     map_sum id (map (apfst (c_metadata_update g))) (match_candidates pg chunks q t u None)"
proof -
  have "sql_scan (match_where pg q t u None) (map (c_metadata_update g) chunks) =
          map_sum id (map (apfst (c_metadata_update g))) (sql_scan (match_where pg q t u None) chunks)"
    by (rule sql_scan_map) (rule match_where_null_filter)
  then show ?thesis
    by (cases "sql_scan (match_where pg q t u None) chunks")
       (simp_all add: match_candidates_def order_by_float8_map)
qed

lemma keyword_candidates_null_filter:
  "keyword_candidates pg (map (c_metadata_update g) chunks) tsq u None =
     map (c_metadata_update g) (keyword_candidates pg chunks tsq u None)"
  by (simp add: keyword_candidates_def filter_map comp_def order_by_desc_map keyword_where_null_filter
        rank_of_metadata_update)

lemma match_select_metadata_update:
  "match_select (apfst (c_metadata_update g) h) = m_metadata_update g (match_select h)"
  by (cases h) (simp add: match_select_def)

lemma keyword_select_metadata_update:
  "keyword_select pg tsq (c_metadata_update g c) = k_metadata_update g (keyword_select pg tsq c)"
  by (simp add: keyword_select_def rank_of_def)

lemma match_chunks_null_filter:
  "match_chunks pg (map (c_metadata_update g) chunks) q t n u None =
     map_sum id (map (m_metadata_update g)) (match_chunks pg chunks q t n u None)"
  by (cases "match_candidates pg chunks q t u None")
     (simp_all add: match_chunks_def match_candidates_null_filter limit_count_def take_map
        match_select_metadata_update comp_def)

lemma keyword_search_chunks_null_filter:
  "keyword_search_chunks pg (map (c_metadata_update g) chunks) pq n u None =
     map_sum id (map (k_metadata_update g)) (keyword_search_chunks pg chunks pq n u None)"
  by (cases pq)
     (simp_all add: keyword_search_chunks_def keyword_candidates_null_filter sql_limit_def take_map
        keyword_select_metadata_update comp_def)

lemma match_chunks_rows:
  assumes "match_chunks pg chunks q t n u f = Inr rows"
  shows "\<exists>hits. rows = map match_select hits \<and>
           (\<forall>h\<in>set hits. \<exists>c\<in>set chunks. match_where pg q t u f c = Inr (Some h))"
proof -
  from match_chunks_hits [OF assms] obtain hits all where
    c: "match_candidates pg chunks q t u f = Inr all" and h: "hits = take (nat n) all"
    and rows: "rows = map match_select hits" by blast
  have "set hits \<subseteq> set all" unfolding h by (rule set_take_subset)
  with match_candidates_hits(1) [OF c] rows show ?thesis by blast
qed

lemma keyword_search_chunks_rows:
  assumes "keyword_search_chunks pg chunks pq n u f = Inr rows"
  shows "rows = [] \<or> (\<exists>qs cs. pq = Some qs \<and> rows = map (keyword_select pg (websearch_to_tsquery pg qs)) cs \<and>
           set cs \<subseteq> {c \<in> set chunks. sql_where (keyword_where pg (websearch_to_tsquery pg qs) u f c)})"
proof (cases pq)
  case None
  with assms show ?thesis by (simp add: keyword_search_chunks_def)
next
  case (Some qs)
  let ?tsq = "websearch_to_tsquery pg qs"
  show ?thesis
  proof (cases "?tsq = empty_tsquery pg")
    case True
    with assms Some show ?thesis by (simp add: keyword_search_chunks_def)
  next
    case False
    with assms Some obtain cs where lim: "sql_limit n (keyword_candidates pg chunks ?tsq u f) = Inr cs"
      and rows: "rows = map (keyword_select pg ?tsq) cs"
      by (auto simp: keyword_search_chunks_def split: sum.splits)
    from lim have "set cs \<subseteq> set (keyword_candidates pg chunks ?tsq u f)"
      by (auto dest!: sql_limit_Inr dest: in_set_takeD)
    with rows Some show ?thesis by (auto simp: keyword_candidates_set)
  qed
qed

text \<open>
  C1. For every owner, query embedding, threshold and count, when the count is not negative
  and \<open><=>\<close> raises on no embedding of the table, \<open>match_chunks\<close> returns; and whatever it
  returns is the projection of chunks of the table, each with its cosine distance to the
  query embedding, whose similarity (1 minus the distance) is greater than the threshold in
  the order PostgreSQL gives floats: a number strictly greater than the threshold, or NaN
  (the chunk or the query is a zero vector). The rows are listed by increasing distance in
  that order, which is decreasing similarity among the numbers with the NaN rows last, and
  there are at most \<open>match_count\<close> of them.
\<close>

theorem match_chunks_sound:
  "(0 \<le> n \<and> (\<forall>c\<in>set chunks. \<forall>e. c_embedding c = Some e \<longrightarrow> (\<exists>d. cosine_distance pg e q = Inr d)) \<longrightarrow>
      (\<exists>rows. match_chunks pg chunks q t n u f = Inr rows)) \<and>
   (match_chunks pg chunks q t n u f = Inr rows \<longrightarrow>
      (\<exists>hits. rows = map match_select hits \<and>
         (\<forall>h\<in>set hits. fst h \<in> set chunks \<and>
            (\<exists>e. c_embedding (fst h) = Some e \<and> cosine_distance pg e q = Inr (snd h)) \<and>
            (snd h = NaN \<or> (\<exists>x. snd h = Num x \<and> t < 1 - x))) \<and>
         sorted_wrt (\<lambda>a b. \<not> float8_gt (snd a) (snd b)) hits \<and>
         sorted_wrt (\<lambda>r s. similarity_order (similarity r) (similarity s)) rows \<and>
         int (length rows) \<le> n))"
proof (intro conjI impI)
  assume "0 \<le> n \<and> (\<forall>c\<in>set chunks. \<forall>e. c_embedding c = Some e \<longrightarrow> (\<exists>d. cosine_distance pg e q = Inr d))"
  then show "\<exists>rows. match_chunks pg chunks q t n u f = Inr rows"
    by (intro match_chunks_returns) simp_all
next
  assume "match_chunks pg chunks q t n u f = Inr rows"
  then show "\<exists>hits. rows = map match_select hits \<and>
         (\<forall>h\<in>set hits. fst h \<in> set chunks \<and>
            (\<exists>e. c_embedding (fst h) = Some e \<and> cosine_distance pg e q = Inr (snd h)) \<and>
            (snd h = NaN \<or> (\<exists>x. snd h = Num x \<and> t < 1 - x))) \<and>
         sorted_wrt (\<lambda>a b. \<not> float8_gt (snd a) (snd b)) hits \<and>
         sorted_wrt (\<lambda>r s. similarity_order (similarity r) (similarity s)) rows \<and>
         int (length rows) \<le> n"
    by (rule match_chunks_returned)
qed

theorem match_chunks_sound_witness:
  "(0 :: int) \<le> 5 \<and>
   cosine_distance demo_pg [0, 1] [1, 0] = Inr (Num 1) \<and>
   cosine_distance demo_pg [1, 0] [1, 0] = Inr (Num 0) \<and>
   cosine_distance demo_pg [3, 4] [1, 0] = Inr (Num (2 / 5)) \<and>
   match_chunks demo_pg demo_chunks [1, 0] (- 1 / 2) 5 ''alice'' None =
     Inr (map match_select [(demo_chunks ! 2, Num (2 / 5)), (demo_chunks ! 0, Num 1)]) \<and>
   map similarity (map match_select [(demo_chunks ! 2, Num (2 / 5)), (demo_chunks ! 0, Num 1)]) =
     [Num (3 / 5), Num 0] \<and>
   (\<exists>hits. map match_select [(demo_chunks ! 2, Num (2 / 5)), (demo_chunks ! 0, Num 1)] =
            map match_select hits \<and>
      (\<forall>h\<in>set hits. fst h \<in> set demo_chunks \<and>
         (\<exists>e. c_embedding (fst h) = Some e \<and> cosine_distance demo_pg e [1, 0] = Inr (snd h)) \<and>
         (snd h = NaN \<or> (\<exists>x. snd h = Num x \<and> - 1 / 2 < 1 - x))) \<and>
      sorted_wrt (\<lambda>a b. \<not> float8_gt (snd a) (snd b)) hits \<and>
      sorted_wrt (\<lambda>r s. similarity_order (similarity r) (similarity s))
        (map match_select [(demo_chunks ! 2, Num (2 / 5)), (demo_chunks ! 0, Num 1)]) \<and>
      int (length (map match_select [(demo_chunks ! 2, Num (2 / 5)), (demo_chunks ! 0, Num 1)])) \<le> 5)"
proof -
  have d1: "cosine_distance demo_pg [0, 1] [1, 0] = Inr (Num 1)" by code_simp
  have d2: "cosine_distance demo_pg [1, 0] [1, 0] = Inr (Num 0)" by code_simp
  have d3: "cosine_distance demo_pg [3, 4] [1, 0] = Inr (Num (2 / 5))" by code_simp
  have s: "map similarity (map match_select [(demo_chunks ! 2, Num (2 / 5)), (demo_chunks ! 0, Num 1)]) =
     [Num (3 / 5), Num 0]" by code_simp
  have h: "match_chunks demo_pg demo_chunks [1, 0] (- 1 / 2) 5 ''alice'' None =
     Inr (map match_select [(demo_chunks ! 2, Num (2 / 5)), (demo_chunks ! 0, Num 1)])"
    by code_simp
  from match_chunks_sound [of 5 demo_chunks demo_pg "[1, 0]" "- 1 / 2" "''alice''" None
      "map match_select [(demo_chunks ! 2, Num (2 / 5)), (demo_chunks ! 0, Num 1)]"] h
  have "\<exists>hits. map match_select [(demo_chunks ! 2, Num (2 / 5)), (demo_chunks ! 0, Num 1)] =
            map match_select hits \<and>
      (\<forall>h\<in>set hits. fst h \<in> set demo_chunks \<and>
         (\<exists>e. c_embedding (fst h) = Some e \<and> cosine_distance demo_pg e [1, 0] = Inr (snd h)) \<and>
         (snd h = NaN \<or> (\<exists>x. snd h = Num x \<and> - 1 / 2 < 1 - x))) \<and>
      sorted_wrt (\<lambda>a b. \<not> float8_gt (snd a) (snd b)) hits \<and>
      sorted_wrt (\<lambda>r s. similarity_order (similarity r) (similarity s))
        (map match_select [(demo_chunks ! 2, Num (2 / 5)), (demo_chunks ! 0, Num 1)]) \<and>
      int (length (map match_select [(demo_chunks ! 2, Num (2 / 5)), (demo_chunks ! 0, Num 1)])) \<le> 5"
    by (rule mp [OF conjunct2])
  with d1 d2 d3 s h show ?thesis by simp
qed

text \<open>
  C1 as stated fails on a chunk whose embedding is the zero vector: its distance to any
  query is NaN, so is its similarity, and PostgreSQL takes NaN to be greater than the
  threshold 1/2. The chunk is returned though its similarity is no number above the
  threshold, and it is listed after a row of similarity 1 although NaN ranks above every
  number. A query of another dimension makes the function raise instead of returning.
\<close>

theorem match_chunks_zero_vector:
  "cosine_distance demo_pg [0, 0] [1, 0] = Inr NaN \<and>
   cosine_distance demo_pg [1, 0] [1, 0] = Inr (Num 0) \<and>
   match_chunks demo_pg zero_chunks [1, 0] (1 / 2) 5 ''alice'' None =
     Inr [match_select (zero_chunks ! 1, Num 0), match_select (zero_chunks ! 0, NaN)] \<and>
   map similarity [match_select (zero_chunks ! 1, Num 0), match_select (zero_chunks ! 0, NaN)] =
     [Num 1, NaN] \<and>
   similarity (match_select (zero_chunks ! 0, NaN)) = NaN \<and>
   float8_gt (similarity (match_select (zero_chunks ! 0, NaN)))
     (similarity (match_select (zero_chunks ! 1, Num 0))) \<and>
   match_chunks demo_pg zero_chunks [1, 0, 0] (1 / 2) 5 ''alice'' None = Inl DifferentVectorDimensions"
  by code_simp

text \<open>
  C2. A query string whose parse is the empty tsquery (no searchable token, as the
  database answers for \<open>???\<close>) makes \<open>keyword_search_chunks\<close> return no row, whatever the
  owner, the count (a negative one too: the function returns before the query runs) and the
  metadata filter. For a query that does yield tokens, every row returned is the projection
  of a chunk whose search vector matches the parsed query.
\<close>

theorem keyword_search_chunks_tokens:
  "(websearch_to_tsquery pg qs = empty_tsquery pg \<longrightarrow>
      keyword_search_chunks pg chunks (Some qs) n u f = Inr []) \<and>
   (websearch_to_tsquery pg qs \<noteq> empty_tsquery pg \<longrightarrow>
      keyword_search_chunks pg chunks (Some qs) n u f = Inr rows \<longrightarrow>
      (\<exists>cs. rows = map (keyword_select pg (websearch_to_tsquery pg qs)) cs \<and> set cs \<subseteq> set chunks \<and>
         (\<forall>c\<in>set cs. \<exists>v. c_search_vector c = Some v \<and> ts_match pg v (websearch_to_tsquery pg qs))))"
proof (intro conjI impI)
  assume "websearch_to_tsquery pg qs = empty_tsquery pg"
  then show "keyword_search_chunks pg chunks (Some qs) n u f = Inr []"
    by (simp add: keyword_search_chunks_def)
next
  let ?tsq = "websearch_to_tsquery pg qs"
  let ?cand = "keyword_candidates pg chunks ?tsq u f"
  assume ne: "?tsq \<noteq> empty_tsquery pg"
    and r: "keyword_search_chunks pg chunks (Some qs) n u f = Inr rows"
  from r ne obtain cs where lim: "sql_limit n ?cand = Inr cs"
    and rows: "rows = map (keyword_select pg ?tsq) cs"
    by (auto simp: keyword_search_chunks_def split: sum.splits)
  from lim have "set cs \<subseteq> set ?cand"
    by (auto dest!: sql_limit_Inr dest: in_set_takeD)
  then have "set cs \<subseteq> set chunks"
    and "\<forall>c\<in>set cs. \<exists>v. c_search_vector c = Some v \<and> ts_match pg v ?tsq"
    by (auto simp: keyword_candidates_set sql_where_keyword)
  with rows show "\<exists>cs. rows = map (keyword_select pg ?tsq) cs \<and> set cs \<subseteq> set chunks \<and>
         (\<forall>c\<in>set cs. \<exists>v. c_search_vector c = Some v \<and> ts_match pg v ?tsq)"
    by blast
qed

theorem keyword_search_chunks_tokens_witness:
  "websearch_to_tsquery demo_pg ''???'' = empty_tsquery demo_pg \<and>
   keyword_search_chunks demo_pg demo_chunks (Some ''???'') 5 ''alice'' None = Inr [] \<and>
   websearch_to_tsquery demo_pg ''cat'' \<noteq> empty_tsquery demo_pg \<and>
   keyword_search_chunks demo_pg demo_chunks (Some ''cat'') 5 ''alice'' None =
     Inr (map (keyword_select demo_pg [''cat'']) [demo_chunks ! 0, demo_chunks ! 2]) \<and>
   (\<exists>cs. map (keyword_select demo_pg [''cat'']) [demo_chunks ! 0, demo_chunks ! 2] =
            map (keyword_select demo_pg (websearch_to_tsquery demo_pg ''cat'')) cs \<and>
         set cs \<subseteq> set demo_chunks \<and>
         (\<forall>c\<in>set cs. \<exists>v. c_search_vector c = Some v \<and>
            ts_match demo_pg v (websearch_to_tsquery demo_pg ''cat'')))"
proof -
  have e: "websearch_to_tsquery demo_pg ''???'' = empty_tsquery demo_pg"
    by (simp add: demo_pg_def)
  have ne: "websearch_to_tsquery demo_pg ''cat'' \<noteq> empty_tsquery demo_pg"
    by (simp add: demo_pg_def)
  have r: "keyword_search_chunks demo_pg demo_chunks (Some ''cat'') 5 ''alice'' None =
     Inr (map (keyword_select demo_pg [''cat'']) [demo_chunks ! 0, demo_chunks ! 2])"
    by code_simp
  from keyword_search_chunks_tokens [of demo_pg "''???''" demo_chunks 5 "''alice''" None] e
  have a: "keyword_search_chunks demo_pg demo_chunks (Some ''???'') 5 ''alice'' None = Inr []"
    by blast
  from keyword_search_chunks_tokens [of demo_pg "''cat''" demo_chunks 5 "''alice''" None] ne r
  have b: "\<exists>cs. map (keyword_select demo_pg [''cat'']) [demo_chunks ! 0, demo_chunks ! 2] =
            map (keyword_select demo_pg (websearch_to_tsquery demo_pg ''cat'')) cs \<and>
         set cs \<subseteq> set demo_chunks \<and>
         (\<forall>c\<in>set cs. \<exists>v. c_search_vector c = Some v \<and>
            ts_match demo_pg v (websearch_to_tsquery demo_pg ''cat''))"
    by blast
  from e ne r a b show ?thesis by blast
qed

text \<open>
  C3. With a metadata filter \<open>j\<close> that is not NULL, every row returned by \<open>match_chunks\<close> and
  every row returned by \<open>keyword_search_chunks\<close> has a metadata document that contains \<open>j\<close>
  (the same operator \<open>@>\<close> on the same column in both). With a NULL filter neither function
  looks at the metadata: rewriting the metadata of every chunk by any function \<open>g\<close> changes
  the result in its metadata column only.
\<close>

theorem metadata_filter_both_paths:
  "(match_chunks pg chunks q t n u (Some j) = Inr rows \<longrightarrow>
      (\<forall>r\<in>set rows. \<exists>m. m_metadata r = Some m \<and> jsonb_contains pg m j)) \<and>
   (keyword_search_chunks pg chunks pq n' u (Some j) = Inr krows \<longrightarrow>
      (\<forall>r\<in>set krows. \<exists>m. k_metadata r = Some m \<and> jsonb_contains pg m j)) \<and>
   match_chunks pg (map (c_metadata_update g) chunks) q t n u None =
     map_sum id (map (m_metadata_update g)) (match_chunks pg chunks q t n u None) \<and>
   keyword_search_chunks pg (map (c_metadata_update g) chunks) pq n' u None =
     map_sum id (map (k_metadata_update g)) (keyword_search_chunks pg chunks pq n' u None)"
proof (intro conjI impI)
  assume "match_chunks pg chunks q t n u (Some j) = Inr rows"
  from match_chunks_rows [OF this] obtain hits where rows: "rows = map match_select hits"
    and h: "\<forall>h\<in>set hits. \<exists>c\<in>set chunks. match_where pg q t u (Some j) c = Inr (Some h)" by blast
  show "\<forall>r\<in>set rows. \<exists>m. m_metadata r = Some m \<and> jsonb_contains pg m j"
  proof
    fix r assume "r \<in> set rows"
    with rows obtain x where x: "x \<in> set hits" and r: "r = match_select x" by auto
    from h x obtain c where "match_where pg q t u (Some j) c = Inr (Some x)" by blast
    from match_where_kept [OF this]
    have "\<exists>m. c_metadata (fst x) = Some m \<and> jsonb_contains pg m j"
      by (simp add: sql_where_metadata_cond)
    then show "\<exists>m. m_metadata r = Some m \<and> jsonb_contains pg m j"
      by (simp add: r match_select_def split_beta)
  qed
next
  assume "keyword_search_chunks pg chunks pq n' u (Some j) = Inr krows"
  from keyword_search_chunks_rows [OF this]
  show "\<forall>r\<in>set krows. \<exists>m. k_metadata r = Some m \<and> jsonb_contains pg m j"
    by (fastforce simp: sql_where_keyword sql_where_metadata_cond keyword_select_def)
qed (rule match_chunks_null_filter keyword_search_chunks_null_filter)+

theorem metadata_filter_both_paths_witness:
  "match_chunks demo_pg demo_chunks [1, 0] (- 1 / 2) 5 ''alice'' (Some [''report'']) =
     Inr [match_select (demo_chunks ! 2, Num (2 / 5))] \<and>
   (\<exists>m. m_metadata (match_select (demo_chunks ! 2, Num (2 / 5))) = Some m \<and>
      jsonb_contains demo_pg m [''report'']) \<and>
   keyword_search_chunks demo_pg demo_chunks (Some ''cat'') 5 ''alice'' (Some [''report'']) =
     Inr [keyword_select demo_pg [''cat''] (demo_chunks ! 2)] \<and>
   (\<exists>m. k_metadata (keyword_select demo_pg [''cat''] (demo_chunks ! 2)) = Some m \<and>
      jsonb_contains demo_pg m [''report''])"
proof -
  have m: "match_chunks demo_pg demo_chunks [1, 0] (- 1 / 2) 5 ''alice'' (Some [''report'']) =
     Inr [match_select (demo_chunks ! 2, Num (2 / 5))]"
    by code_simp
  have k: "keyword_search_chunks demo_pg demo_chunks (Some ''cat'') 5 ''alice'' (Some [''report'']) =
     Inr [keyword_select demo_pg [''cat''] (demo_chunks ! 2)]"
    by code_simp
  from metadata_filter_both_paths [of demo_pg demo_chunks "[1, 0]" "- 1 / 2" 5 "''alice''" "[''report'']"
      "[match_select (demo_chunks ! 2, Num (2 / 5))]" "Some ''cat''" 5
      "[keyword_select demo_pg [''cat''] (demo_chunks ! 2)]" id] m k
  show ?thesis by simp
qed

text \<open>
  C4. Every row returned by \<open>match_chunks\<close> or \<open>keyword_search_chunks\<close> called with
  \<open>p_user_id = u\<close> is the projection of a chunk of the table whose \<open>user_id\<close> is \<open>u\<close> (in
  \<open>match_chunks\<close> with the distance of that chunk to the query); and two tables with the same
  rows of owner \<open>u\<close> (in the same scan order), whatever their other rows, give the same result
  in both functions, an error included.
\<close>

theorem owner_scoping:
  "(match_chunks pg chunks q t n u f = Inr rows \<longrightarrow>
      (\<exists>hits. rows = map match_select hits \<and>
         (\<forall>h\<in>set hits. fst h \<in> set chunks \<and> c_user_id (fst h) = u \<and>
            (\<exists>e. c_embedding (fst h) = Some e \<and> cosine_distance pg e q = Inr (snd h))))) \<and>
   (keyword_search_chunks pg chunks (Some qs) n' u f = Inr krows \<longrightarrow>
      (\<exists>cs. krows = map (keyword_select pg (websearch_to_tsquery pg qs)) cs \<and>
         (\<forall>c\<in>set cs. c \<in> set chunks \<and> c_user_id c = u))) \<and>
   (filter (\<lambda>c. c_user_id c = u) chunks = filter (\<lambda>c. c_user_id c = u) chunks' \<longrightarrow>
      match_chunks pg chunks q t n u f = match_chunks pg chunks' q t n u f \<and>
      keyword_search_chunks pg chunks pq n' u f = keyword_search_chunks pg chunks' pq n' u f)"
proof (intro conjI impI)
  assume "match_chunks pg chunks q t n u f = Inr rows"
  from match_chunks_rows [OF this] obtain hits where rows: "rows = map match_select hits"
    and h: "\<forall>h\<in>set hits. \<exists>c\<in>set chunks. match_where pg q t u f c = Inr (Some h)" by blast
  have "\<forall>h\<in>set hits. fst h \<in> set chunks \<and> c_user_id (fst h) = u \<and>
            (\<exists>e. c_embedding (fst h) = Some e \<and> cosine_distance pg e q = Inr (snd h))"
  proof
    fix x assume "x \<in> set hits"
    with h obtain c where c: "c \<in> set chunks" and w: "match_where pg q t u f c = Inr (Some x)"
      by blast
    from match_where_kept [OF w] c
    show "fst x \<in> set chunks \<and> c_user_id (fst x) = u \<and>
            (\<exists>e. c_embedding (fst x) = Some e \<and> cosine_distance pg e q = Inr (snd x))"
      by simp
  qed
  with rows
  show "\<exists>hits. rows = map match_select hits \<and>
         (\<forall>h\<in>set hits. fst h \<in> set chunks \<and> c_user_id (fst h) = u \<and>
            (\<exists>e. c_embedding (fst h) = Some e \<and> cosine_distance pg e q = Inr (snd h)))"
    by blast
next
  assume "keyword_search_chunks pg chunks (Some qs) n' u f = Inr krows"
  from keyword_search_chunks_rows [OF this]
  show "\<exists>cs. krows = map (keyword_select pg (websearch_to_tsquery pg qs)) cs \<and>
         (\<forall>c\<in>set cs. c \<in> set chunks \<and> c_user_id c = u)"
    by (fastforce simp: sql_where_keyword)
next
  assume eq: "filter (\<lambda>c. c_user_id c = u) chunks = filter (\<lambda>c. c_user_id c = u) chunks'"
  have m: "\<And>xs. sql_scan (match_where pg q t u f) (filter (\<lambda>c. c_user_id c = u) xs) =
             sql_scan (match_where pg q t u f) xs"
    by (rule sql_scan_filter) (simp add: match_where_def)
  have "sql_scan (match_where pg q t u f) chunks = sql_scan (match_where pg q t u f) chunks'"
    using m [of chunks] m [of chunks'] eq by simp
  then have "match_candidates pg chunks q t u f = match_candidates pg chunks' q t u f"
    unfolding match_candidates_def by (rule arg_cong)
  then show "match_chunks pg chunks q t n u f = match_chunks pg chunks' q t n u f"
    unfolding match_chunks_def by (rule arg_cong)
  have k: "\<And>tsq xs. filter (\<lambda>c. sql_where (keyword_where pg tsq u f c)) xs =
             filter (\<lambda>c. sql_where (keyword_where pg tsq u f c)) (filter (\<lambda>c. c_user_id c = u) xs)"
    by (simp add: sql_where_keyword conj_commute cong: conj_cong)
  have "\<And>tsq. keyword_candidates pg chunks tsq u f = keyword_candidates pg chunks' tsq u f"
    unfolding keyword_candidates_def by (subst k, subst (2) k) (simp only: eq)
  then show "keyword_search_chunks pg chunks pq n' u f = keyword_search_chunks pg chunks' pq n' u f"
    by (cases pq) (simp_all add: keyword_search_chunks_def)
qed

theorem owner_scoping_witness:
  "match_chunks demo_pg demo_chunks [1, 0] (- 1 / 2) 5 ''alice'' None =
     Inr (map match_select [(demo_chunks ! 2, Num (2 / 5)), (demo_chunks ! 0, Num 1)]) \<and>
   (\<exists>hits. map match_select [(demo_chunks ! 2, Num (2 / 5)), (demo_chunks ! 0, Num 1)] =
            map match_select hits \<and>
      (\<forall>h\<in>set hits. fst h \<in> set demo_chunks \<and> c_user_id (fst h) = ''alice'' \<and>
         (\<exists>e. c_embedding (fst h) = Some e \<and> cosine_distance demo_pg e [1, 0] = Inr (snd h)))) \<and>
   keyword_search_chunks demo_pg demo_chunks (Some ''cat'') 5 ''alice'' None =
     Inr (map (keyword_select demo_pg [''cat'']) [demo_chunks ! 0, demo_chunks ! 2]) \<and>
   (\<exists>cs. map (keyword_select demo_pg [''cat'']) [demo_chunks ! 0, demo_chunks ! 2] =
          map (keyword_select demo_pg (websearch_to_tsquery demo_pg ''cat'')) cs \<and>
      (\<forall>c\<in>set cs. c \<in> set demo_chunks \<and> c_user_id c = ''alice'')) \<and>
   filter (\<lambda>c. c_user_id c = ''alice'') demo_chunks =
     filter (\<lambda>c. c_user_id c = ''alice'') [demo_chunks ! 0, demo_chunks ! 2] \<and>
   match_chunks demo_pg demo_chunks [1, 0] (- 1 / 2) 5 ''alice'' None =
     match_chunks demo_pg [demo_chunks ! 0, demo_chunks ! 2] [1, 0] (- 1 / 2) 5 ''alice'' None \<and>
   keyword_search_chunks demo_pg demo_chunks (Some ''cat'') 5 ''alice'' None =
     keyword_search_chunks demo_pg [demo_chunks ! 0, demo_chunks ! 2] (Some ''cat'') 5 ''alice'' None"
proof -
  have m: "match_chunks demo_pg demo_chunks [1, 0] (- 1 / 2) 5 ''alice'' None =
     Inr (map match_select [(demo_chunks ! 2, Num (2 / 5)), (demo_chunks ! 0, Num 1)])"
    by code_simp
  have k: "keyword_search_chunks demo_pg demo_chunks (Some ''cat'') 5 ''alice'' None =
     Inr (map (keyword_select demo_pg [''cat'']) [demo_chunks ! 0, demo_chunks ! 2])"
    by code_simp
  have e: "filter (\<lambda>c. c_user_id c = ''alice'') demo_chunks =
     filter (\<lambda>c. c_user_id c = ''alice'') [demo_chunks ! 0, demo_chunks ! 2]"
    by code_simp
  from owner_scoping [of demo_pg demo_chunks "[1, 0]" "- 1 / 2" 5 "''alice''" None
      "map match_select [(demo_chunks ! 2, Num (2 / 5)), (demo_chunks ! 0, Num 1)]" "''cat''" 5
      "map (keyword_select demo_pg [''cat'']) [demo_chunks ! 0, demo_chunks ! 2]"
      "[demo_chunks ! 0, demo_chunks ! 2]" "Some ''cat''"] m k e
  show ?thesis by blast
qed

section \<open>Properties of the foreign keys\<close>

lemma delete_documents_where_chunks:
  "c \<in> set (db_chunks (delete_documents_where P db)) \<Longrightarrow>
     c \<in> set (db_chunks db) \<and> \<not> (\<exists>d\<in>set (db_documents db). P d \<and> d_id d = c_document_id c)"
  by (force simp: delete_documents_where_def Let_def)

lemma delete_documents_where_documents:
  "set (db_documents (delete_documents_where P db)) = {d \<in> set (db_documents db). \<not> P d}"
  by (auto simp: delete_documents_where_def Let_def)

lemma chunks_have_documents_iff:
  "chunks_have_documents db =
     (\<forall>c\<in>set (db_chunks db). \<exists>d\<in>set (db_documents db). d_id d = c_document_id c)"
  by (force simp: chunks_have_documents_def list_all_iff)

lemma delete_documents_where_keeps:
  assumes "chunks_have_documents db"
  shows "chunks_have_documents (delete_documents_where P db)"
  unfolding chunks_have_documents_iff
proof
  fix c assume c: "c \<in> set (db_chunks (delete_documents_where P db))"
  from delete_documents_where_chunks [OF c]
  have in_db: "c \<in> set (db_chunks db)"
    and kept: "\<not> (\<exists>d\<in>set (db_documents db). P d \<and> d_id d = c_document_id c)" by auto
  from assms in_db obtain d where d: "d \<in> set (db_documents db)" "d_id d = c_document_id c"
    by (auto simp: chunks_have_documents_iff)
  with kept have "\<not> P d" by auto
  with d show "\<exists>d\<in>set (db_documents (delete_documents_where P db)). d_id d = c_document_id c"
    by (auto simp: delete_documents_where_documents)
qed

lemma exec_keeps:
  assumes "chunks_have_documents db" and "exec st db = Inr db'"
  shows "chunks_have_documents db'"
proof (cases st)
  case (InsertUser u)
  with assms show ?thesis by (auto simp: chunks_have_documents_iff split: if_splits)
next
  case (DeleteUser u)
  from delete_documents_where_keeps [OF assms(1), of "\<lambda>d. d_user_id d = u"]
  have "chunks_have_documents (delete_documents_where (\<lambda>d. d_user_id d = u) db)" .
  with assms(2) DeleteUser show ?thesis
    by (auto simp: chunks_have_documents_iff Let_def)
next
  case (InsertDocument d)
  with assms show ?thesis by (auto simp: chunks_have_documents_iff split: if_splits)
next
  case (DeleteDocument i)
  with assms delete_documents_where_keeps [OF assms(1)] show ?thesis by auto
next
  case (InsertChunk c)
  with assms show ?thesis by (fastforce simp: chunks_have_documents_iff split: if_splits)
next
  case (DeleteChunk i)
  with assms show ?thesis by (auto simp: chunks_have_documents_iff)
next
  case (UpdateChunkDocument i d)
  with assms show ?thesis by (fastforce simp: chunks_have_documents_iff split: if_splits)
qed

lemma reachable_chunks_have_documents: "reachable db \<Longrightarrow> chunks_have_documents db"
proof (induction rule: reachable.induct)
  case reachable_empty
  show ?case by (simp add: chunks_have_documents_def empty_db_def)
next
  case (reachable_exec db st db')
  then show ?case by (blast intro: exec_keeps)
qed

lemma reachable_demo_db: "reachable demo_db"
proof -
  let ?d1 = "demo_document ''d1'' ''alice'' ''a.txt''" and ?d2 = "demo_document ''d2'' ''bob'' ''b.txt''"
  let ?s1 = "\<lparr> db_users = [''alice''], db_documents = [], db_chunks = [] \<rparr>
               :: (int list, string list, string list) database"
  let ?s2 = "?s1 \<lparr> db_users := [''alice'', ''bob''] \<rparr>"
  let ?s3 = "?s2 \<lparr> db_documents := [?d1] \<rparr>"
  let ?s4 = "?s3 \<lparr> db_documents := [?d1, ?d2] \<rparr>"
  let ?s5 = "?s4 \<lparr> db_chunks := [demo_chunks ! 0] \<rparr>"
  let ?s6 = "?s5 \<lparr> db_chunks := [demo_chunks ! 0, demo_chunks ! 1] \<rparr>"
  have "exec (InsertUser ''alice'') empty_db = Inr ?s1" by (simp add: empty_db_def)
  from reachable_exec [OF reachable_empty this] have r1: "reachable ?s1" .
  have "exec (InsertUser ''bob'') ?s1 = Inr ?s2" by simp
  from reachable_exec [OF r1 this] have r2: "reachable ?s2" .
  have "exec (InsertDocument ?d1) ?s2 = Inr ?s3" by (simp add: demo_document_def)
  from reachable_exec [OF r2 this] have r3: "reachable ?s3" .
  have "exec (InsertDocument ?d2) ?s3 = Inr ?s4" by (simp add: demo_document_def)
  from reachable_exec [OF r3 this] have r4: "reachable ?s4" .
  have "exec (InsertChunk (demo_chunks ! 0)) ?s4 = Inr ?s5"
    by (simp add: demo_document_def demo_chunks_def demo_chunk_def)
  from reachable_exec [OF r4 this] have r5: "reachable ?s5" .
  have "exec (InsertChunk (demo_chunks ! 1)) ?s5 = Inr ?s6"
    by (simp add: demo_document_def demo_chunks_def demo_chunk_def)
  from reachable_exec [OF r5 this] have r6: "reachable ?s6" .
  have "exec (InsertChunk (demo_chunks ! 2)) ?s6 = Inr demo_db"
    by (simp add: demo_document_def demo_chunks_def demo_chunk_def demo_db_def)
  from reachable_exec [OF r6 this] show ?thesis .
qed

text \<open>
  C6. In every state of the tables, deleting a document \<open>i\<close> of the table succeeds and leaves no chunk whose
  \<open>document_id\<close> is \<open>i\<close>; and in every reachable state every chunk's \<open>document_id\<close> is the \<open>id\<close>
  of a row of \<open>documents\<close>.
\<close>

theorem chunk_never_outlives_document:
  "(i \<in> set (map d_id (db_documents db)) \<longrightarrow>
      (\<exists>db'. exec (DeleteDocument i) db = Inr db' \<and> (\<forall>c\<in>set (db_chunks db'). c_document_id c \<noteq> i))) \<and>
   (reachable db \<longrightarrow>
      (\<forall>c\<in>set (db_chunks db). \<exists>d\<in>set (db_documents db). d_id d = c_document_id c))"
proof (intro conjI impI)
  assume "i \<in> set (map d_id (db_documents db))"
  then have "\<forall>c\<in>set (db_chunks (delete_documents_where (\<lambda>d. d_id d = i) db)). c_document_id c \<noteq> i"
    by (force simp: delete_documents_where_def Let_def)
  then show "\<exists>db'. exec (DeleteDocument i) db = Inr db' \<and> (\<forall>c\<in>set (db_chunks db'). c_document_id c \<noteq> i)"
    by simp
next
  assume "reachable db"
  then show "\<forall>c\<in>set (db_chunks db). \<exists>d\<in>set (db_documents db). d_id d = c_document_id c"
    by (simp add: reachable_chunks_have_documents flip: chunks_have_documents_iff)
qed

theorem chunk_never_outlives_document_witness:
  "reachable demo_db \<and> ''d1'' \<in> set (map d_id (db_documents demo_db)) \<and>
   list_all (\<lambda>c. list_ex (\<lambda>d. d_id d = c_document_id c) (db_documents demo_db)) (db_chunks demo_db) \<and>
   (\<exists>db'. exec (DeleteDocument ''d1'') demo_db = Inr db' \<and>
      list_all (\<lambda>c. c_document_id c \<noteq> ''d1'') (db_chunks db'))"
proof -
  have d: "''d1'' \<in> set (map d_id (db_documents demo_db))"
    by (simp add: demo_db_def demo_document_def)
  from chunk_never_outlives_document [of "''d1''" demo_db] reachable_demo_db d
  show ?thesis by (simp add: list_all_iff list_ex_iff)
qed

section \<open>Properties of the chat stream consumer\<close>

lemma split_nl_nonempty: "split_nl s \<noteq> []"
  by (induction s) (auto split: list.splits)

lemma split_nl_no_newline: "newline \<notin> set s \<Longrightarrow> split_nl s = [s]"
  by (induction s) auto

lemma last_split_nl_no_newline: "newline \<notin> set (last (split_nl s))"
  by (induction s) (auto split: list.splits simp: split_nl_nonempty)

lemma split_nl_append:
  "split_nl (a @ b) =
     butlast (split_nl a) @ (last (split_nl a) @ hd (split_nl b)) # tl (split_nl b)"
proof (induction a)
  case Nil
  show ?case using split_nl_nonempty [of b] by (cases "split_nl b") auto
next
  case (Cons c a)
  obtain l ls where a: "split_nl a = l # ls"
    using split_nl_nonempty [of a] by (cases "split_nl a") auto
  obtain m ms where ab: "split_nl (a @ b) = m # ms"
    using split_nl_nonempty [of "a @ b"] by (cases "split_nl (a @ b)") auto
  show ?case
  proof (cases "c = newline")
    case True
    have "split_nl ((c # a) @ b) = [] # split_nl (a @ b)" using True by simp
    also have "\<dots> = [] # butlast (split_nl a) @ (last (split_nl a) @ hd (split_nl b)) # tl (split_nl b)"
      by (simp only: Cons.IH)
    also have "\<dots> = butlast (split_nl (c # a)) @ (last (split_nl (c # a)) @ hd (split_nl b)) # tl (split_nl b)"
      using True a by simp
    finally show ?thesis .
  next
    case False
    show ?thesis
    proof (cases ls)
      case Nil
      with a have sa: "split_nl a = [l]" by simp
      from Cons.IH sa have "split_nl (a @ b) = (l @ hd (split_nl b)) # tl (split_nl b)" by simp
      then have "split_nl ((c # a) @ b) = (c # l @ hd (split_nl b)) # tl (split_nl b)"
        using False by simp
      moreover have "split_nl (c # a) = [c # l]" using False sa by simp
      ultimately show ?thesis by simp
    next
      case (Cons l' ls')
      with a have sa: "split_nl a = l # l' # ls'" by simp
      from Cons.IH sa
      have "split_nl (a @ b) = l # butlast (l' # ls') @ (last (l' # ls') @ hd (split_nl b)) # tl (split_nl b)"
        by simp
      then have "split_nl ((c # a) @ b) =
          (c # l) # butlast (l' # ls') @ (last (l' # ls') @ hd (split_nl b)) # tl (split_nl b)"
        using False by simp
      moreover have "split_nl (c # a) = (c # l) # l' # ls'" using False sa by simp
      ultimately show ?thesis by simp
    qed
  qed
qed

lemma split_nl_append_tail:
  "split_nl (a @ b) = butlast (split_nl a) @ split_nl (last (split_nl a) @ b)"
proof -
  let ?t = "last (split_nl a)"
  have "split_nl ?t = [?t]"
    by (rule split_nl_no_newline [OF last_split_nl_no_newline])
  then have "split_nl (?t @ b) = (?t @ hd (split_nl b)) # tl (split_nl b)"
    using split_nl_append [of ?t b] by simp
  then show ?thesis using split_nl_append [of a b] by simp
qed

lemma complete_lines_append:
  "complete_lines (a @ b) = complete_lines a @ complete_lines (last (split_nl a) @ b)"
proof -
  have "butlast (butlast (split_nl a) @ split_nl (last (split_nl a) @ b)) =
          butlast (split_nl a) @ butlast (split_nl (last (split_nl a) @ b))"
    by (simp add: butlast_append split_nl_nonempty)
  then show ?thesis
    unfolding complete_lines_def using split_nl_append_tail [of a b] by simp
qed

lemma js_pop_split_nl: "js_pop (split_nl s) = (Some (last (split_nl s)), complete_lines s)"
proof -
  obtain x rest where r: "rev (split_nl s) = x # rest"
    using split_nl_nonempty [of s] by (cases "rev (split_nl s)") auto
  then have "split_nl s = rev rest @ [x]" by (simp add: rev_eq_Cons_iff)
  with r show ?thesis by (simp add: js_pop_def complete_lines_def)
qed

lemma sse_loop_step:
  "sse_loop P buffer (chunk # rest) =
     concat (map (handle_line P) (complete_lines (buffer @ chunk))) @
     sse_loop P (last (split_nl (buffer @ chunk))) rest"
proof -
  have "(if last (split_nl (buffer @ chunk)) = [] then [] else last (split_nl (buffer @ chunk))) =
          last (split_nl (buffer @ chunk))" by simp
  then show ?thesis
    by (simp only: sse_loop.simps js_pop_split_nl prod.case option.case)
qed

lemma sse_loop_lines:
  "newline \<notin> set buffer \<Longrightarrow>
     sse_loop P buffer chunks = concat (map (handle_line P) (complete_lines (buffer @ concat chunks)))"
proof (induction chunks arbitrary: buffer)
  case Nil
  then have "split_nl buffer = [buffer]" by (rule split_nl_no_newline)
  then show ?case by (simp add: complete_lines_def)
next
  case (Cons chunk rest)
  let ?t = "last (split_nl (buffer @ chunk))"
  have t: "newline \<notin> set ?t" by (rule last_split_nl_no_newline)
  have "sse_loop P buffer (chunk # rest) =
          concat (map (handle_line P) (complete_lines (buffer @ chunk))) @ sse_loop P ?t rest"
    by (rule sse_loop_step)
  also have "sse_loop P ?t rest = concat (map (handle_line P) (complete_lines (?t @ concat rest)))"
    by (rule Cons.IH [OF t])
  also have "concat (map (handle_line P) (complete_lines (buffer @ chunk))) @
               concat (map (handle_line P) (complete_lines (?t @ concat rest))) =
             concat (map (handle_line P) (complete_lines ((buffer @ chunk) @ concat rest)))"
    using complete_lines_append [of "buffer @ chunk" "concat rest"] by simp
  finally show ?case by simp
qed

lemma sse_loop_text:
  "sse_loop P [] chunks = concat (map (handle_line P) (complete_lines (concat chunks)))"
  using sse_loop_lines [of "[]" P chunks] by simp

lemma complete_lines_tail:
  assumes t: "newline \<notin> set t"
  shows "complete_lines (s @ t) = complete_lines s"
proof -
  have "newline \<notin> set (last (split_nl s) @ t)"
    using t last_split_nl_no_newline [of s] by simp
  then have "split_nl (last (split_nl s) @ t) = [last (split_nl s) @ t]"
    by (rule split_nl_no_newline)
  then have "complete_lines (last (split_nl s) @ t) = []"
    by (simp add: complete_lines_def)
  then show ?thesis using complete_lines_append [of s t] by simp
qed

text \<open>
  C10. The handler calls of \<open>sendMessage\<close> depend on the text of the stream only, not on how
  it is cut into chunks: two chunkings of the same text give the same calls (and the same
  thrown error when the request fails before the stream is read), since the calls are
  those of the complete lines of the text, in order. A tail without a line feed is
  buffered and changes nothing: what follows the last line feed of the stream never
  reaches a handler.
\<close>

theorem sendMessage_chunking:
  "(concat chunks1 = concat chunks2 \<longrightarrow>
      sendMessage P session (response \<lparr> resp_body := Some chunks1 \<rparr>) =
      sendMessage P session (response \<lparr> resp_body := Some chunks2 \<rparr>)) \<and>
   (newline \<notin> set t \<longrightarrow>
      sendMessage P session (response \<lparr> resp_body := Some (chunks1 @ [t]) \<rparr>) =
      sendMessage P session (response \<lparr> resp_body := Some chunks1 \<rparr>))"
  by (cases session) (simp_all add: sendMessage_def sse_loop_text complete_lines_tail)

theorem sendMessage_chunking_witness:
  \<open>concat [line_of ''data: {"content":"Hi"}'', line_of ''event: done''] =
     concat [''data: {"con'', ''tent":"Hi"}'' @ [newline] @ ''event: '', line_of ''done''] \<and>
   sendMessage demo_JSON_parse (Some ''token'') (ok_response [line_of ''data: {"content":"Hi"}'', line_of ''event: done'']) =
     Inr [OnTextDelta (JStr ''Hi''), OnDone] \<and>
   sendMessage demo_JSON_parse (Some ''token'')
       (ok_response [''data: {"con'', ''tent":"Hi"}'' @ [newline] @ ''event: '', line_of ''done'']) =
     Inr [OnTextDelta (JStr ''Hi''), OnDone] \<and>
   newline \<notin> set ''event: done'' \<and>
   sendMessage demo_JSON_parse (Some ''token'') (ok_response ([line_of ''data: {"content":"Hi"}''] @ [''event: done''])) =
     sendMessage demo_JSON_parse (Some ''token'') (ok_response [line_of ''data: {"content":"Hi"}''])\<close>
proof -
  have c: \<open>concat [line_of ''data: {"content":"Hi"}'', line_of ''event: done''] =
     concat [''data: {"con'', ''tent":"Hi"}'' @ [newline] @ ''event: '', line_of ''done'']\<close>
    by (simp add: line_of_def)
  have n: "newline \<notin> set ''event: done''" by (simp add: newline_def)
  have v: \<open>sendMessage demo_JSON_parse (Some ''token'') (ok_response [line_of ''data: {"content":"Hi"}'', line_of ''event: done'']) =
     Inr [OnTextDelta (JStr ''Hi''), OnDone]\<close>
    by code_simp
  have r: "\<And>cs. ok_response [] \<lparr> resp_body := Some cs \<rparr> = ok_response cs"
    by (simp add: ok_response_def)
  from sendMessage_chunking [of \<open>[line_of ''data: {"content":"Hi"}'', line_of ''event: done'']\<close>
      \<open>[''data: {"con'', ''tent":"Hi"}'' @ [newline] @ ''event: '', line_of ''done'']\<close>
      demo_JSON_parse "Some ''token''" "ok_response []" "''event: done''"] c n
  have a: \<open>sendMessage demo_JSON_parse (Some ''token'') (ok_response [line_of ''data: {"content":"Hi"}'', line_of ''event: done'']) =
      sendMessage demo_JSON_parse (Some ''token'')
       (ok_response [''data: {"con'', ''tent":"Hi"}'' @ [newline] @ ''event: '', line_of ''done''])\<close>
    by (simp add: r)
  from sendMessage_chunking [of \<open>[line_of ''data: {"content":"Hi"}'']\<close>
      \<open>[line_of ''data: {"content":"Hi"}'']\<close>
      demo_JSON_parse "Some ''token''" "ok_response []" "''event: done''"] n
  have b: \<open>sendMessage demo_JSON_parse (Some ''token'') (ok_response ([line_of ''data: {"content":"Hi"}''] @ [''event: done''])) =
     sendMessage demo_JSON_parse (Some ''token'') (ok_response [line_of ''data: {"content":"Hi"}''])\<close>
    by (simp add: r)
  from c n v a b show ?thesis by simp
qed














section \<open>Properties of uploading\<close>

lemma file_ext_TXT: "file_ext ''Read.Me.TXT'' = ''.txt''"
  by code_simp

lemma file_ext_no_dot: "file_ext ''txt'' = ''.txt''"
  by code_simp

lemma file_ext_dot_first: "file_ext ''.md'' = ''.md''"
  by code_simp

lemma file_ext_PDF: "file_ext ''notes.PDF'' = ''.pdf''"
  by code_simp

lemma validateFile_PDF: "validateFile \<lparr> f_name = ''notes.PDF'', f_size = 10, f_bytes = ''0123456789'' \<rparr> =
     Some ''Unsupported file type. Allowed: .txt, .md''"
  by (simp add: validateFile_def ALLOWED_EXTENSIONS_def file_ext_PDF)

lemma validateFile_large: "validateFile \<lparr> f_name = ''Read.Me.TXT'', f_size = 10485761, f_bytes = [] \<rparr> =
     Some ''File too large. Maximum size is 10 MB.''"
  by (simp add: validateFile_def ALLOWED_EXTENSIONS_def file_ext_TXT)

lemma validateFile_TXT: "validateFile \<lparr> f_name = ''Read.Me.TXT'', f_size = 10485760, f_bytes = [] \<rparr> = None"
  by (simp add: validateFile_def ALLOWED_EXTENSIONS_def file_ext_TXT)

lemma validateFile_no_dot: "validateFile (demo_file ''txt'' ''x'') = None"
  by (simp add: validateFile_def ALLOWED_EXTENSIONS_def file_ext_no_dot demo_file_def)

lemma validateFile_dot_first: "validateFile (demo_file ''.md'' ''x'') = None"
  by (simp add: validateFile_def ALLOWED_EXTENSIONS_def file_ext_dot_first demo_file_def)

lemma first_validation_error_Some:
  "first_validation_error files = Some e \<Longrightarrow> \<exists>f\<in>set files. validateFile f = Some e"
  by (induction files) (auto split: option.splits)

lemma first_validation_error_None:
  "first_validation_error files = None \<longleftrightarrow> (\<forall>f\<in>set files. validateFile f = None)"
  by (induction files) (auto split: option.splits)

text \<open>
  What validation does, with the extension as \<open>validateFile\<close> computes it (\<open>file_ext\<close>, the
  lower-cased last piece of the name between dots, which is the whole name when it has no
  dot): a file whose \<open>file_ext\<close> is outside the allowlist, or whose size exceeds 10 MB, gets
  a validation error; a file inside both bounds gets none. When any file of a batch fails
  validation, \<open>handleUpload\<close> sets the error of the first such file, issues no upload
  request for any file of the batch (the world behind \<open>fetch\<close> is untouched), does not call
  \<open>onUploadComplete\<close>, and returns: nothing is retried.
\<close>

lemma validateFile_by_file_ext:
  "(file_ext (f_name file) \<notin> set ALLOWED_EXTENSIONS \<or> f_size file > 10 * 1024 * 1024 \<longrightarrow>
      (\<exists>e. validateFile file = Some e)) \<and>
   (file_ext (f_name file) \<in> set ALLOWED_EXTENSIONS \<and> f_size file \<le> 10 * 1024 * 1024 \<longrightarrow>
      validateFile file = None) \<and>
   (file \<in> set fileArray \<and> validateFile file \<noteq> None \<longrightarrow>
      (\<exists>e. (\<exists>f\<in>set fileArray. validateFile f = Some e) \<and>
           handleUpload upload w ui fileArray =
             \<lparr> out_world = w, out_ui = ui \<lparr> ui_error := Some e, ui_info := None \<rparr>,
               out_requested = [], out_completed = False \<rparr>))"
proof (intro conjI impI)
  assume "file_ext (f_name file) \<notin> set ALLOWED_EXTENSIONS \<or> f_size file > 10 * 1024 * 1024"
  then show "\<exists>e. validateFile file = Some e"
    by (auto simp: validateFile_def Let_def)
next
  assume "file_ext (f_name file) \<in> set ALLOWED_EXTENSIONS \<and> f_size file \<le> 10 * 1024 * 1024"
  then show "validateFile file = None"
    by (auto simp: validateFile_def Let_def)
next
  assume a: "file \<in> set fileArray \<and> validateFile file \<noteq> None"
  then have "first_validation_error fileArray \<noteq> None"
    by (auto simp: first_validation_error_None)
  then obtain e where e: "first_validation_error fileArray = Some e" by auto
  from first_validation_error_Some [OF e] have "\<exists>f\<in>set fileArray. validateFile f = Some e" .
  moreover from e have "handleUpload upload w ui fileArray =
             \<lparr> out_world = w, out_ui = ui \<lparr> ui_error := Some e, ui_info := None \<rparr>,
               out_requested = [], out_completed = False \<rparr>"
    by (simp add: handleUpload_def)
  ultimately show "\<exists>e. (\<exists>f\<in>set fileArray. validateFile f = Some e) \<and>
           handleUpload upload w ui fileArray =
             \<lparr> out_world = w, out_ui = ui \<lparr> ui_error := Some e, ui_info := None \<rparr>,
               out_requested = [], out_completed = False \<rparr>" by blast
qed

lemma validateFile_by_file_ext_example:
  "file_ext ''notes.PDF'' \<notin> set ALLOWED_EXTENSIONS \<and>
   validateFile \<lparr> f_name = ''notes.PDF'', f_size = 10, f_bytes = ''0123456789'' \<rparr> =
     Some ''Unsupported file type. Allowed: .txt, .md'' \<and>
   (10485761 :: nat) > 10 * 1024 * 1024 \<and>
   validateFile \<lparr> f_name = ''Read.Me.TXT'', f_size = 10485761, f_bytes = [] \<rparr> =
     Some ''File too large. Maximum size is 10 MB.'' \<and>
   file_ext ''Read.Me.TXT'' \<in> set ALLOWED_EXTENSIONS \<and> (10485760 :: nat) \<le> 10 * 1024 * 1024 \<and>
   validateFile \<lparr> f_name = ''Read.Me.TXT'', f_size = 10485760, f_bytes = [] \<rparr> = None \<and>
   handleUpload (demo_upload []) demo_world demo_ui
       [\<lparr> f_name = ''Read.Me.TXT'', f_size = 10485760, f_bytes = [] \<rparr>,
        \<lparr> f_name = ''notes.PDF'', f_size = 10, f_bytes = ''0123456789'' \<rparr>] =
     \<lparr> out_world = demo_world,
       out_ui = demo_ui \<lparr> ui_error := Some ''Unsupported file type. Allowed: .txt, .md'', ui_info := None \<rparr>,
       out_requested = [], out_completed = False \<rparr>"
proof -
  let ?bad = "\<lparr> f_name = ''notes.PDF'', f_size = 10, f_bytes = ''0123456789'' \<rparr>"
  let ?big = "\<lparr> f_name = ''Read.Me.TXT'', f_size = 10485761, f_bytes = [] \<rparr>"
  let ?good = "\<lparr> f_name = ''Read.Me.TXT'', f_size = 10485760, f_bytes = [] \<rparr>"
  have e1: "file_ext (f_name ?bad) \<notin> set ALLOWED_EXTENSIONS"
    by (simp add: file_ext_PDF ALLOWED_EXTENSIONS_def)
  have e2: "file_ext (f_name ?good) \<in> set ALLOWED_EXTENSIONS"
    by (simp add: file_ext_TXT ALLOWED_EXTENSIONS_def)
  from validateFile_by_file_ext [of ?bad "[?good, ?bad]" "demo_upload []" demo_world demo_ui] e1
  obtain e where e: "\<exists>f\<in>set [?good, ?bad]. validateFile f = Some e"
    and h: "handleUpload (demo_upload []) demo_world demo_ui [?good, ?bad] =
             \<lparr> out_world = demo_world, out_ui = demo_ui \<lparr> ui_error := Some e, ui_info := None \<rparr>,
               out_requested = [], out_completed = False \<rparr>"
    by (auto simp: validateFile_PDF)
  from e have "e = ''Unsupported file type. Allowed: .txt, .md''"
    by (auto simp: validateFile_PDF validateFile_TXT)
  with h e1 e2 show ?thesis
    by (simp add: validateFile_PDF validateFile_TXT validateFile_large)
qed

lemma handleUpload_requested:
  "first_validation_error files = None \<Longrightarrow>
     out_requested (handleUpload up w ui files) = fst (snd (upload_all up w files []))"
  by (simp add: handleUpload_def split: prod.splits sum.splits)

text \<open>
  C8. \<open>validateFile\<close> takes the last piece of the name between dots for the extension also
  when no dot precedes it. A file named \<open>txt\<close>, or \<open>.md\<close>, has no extension, so its extension
  is not one of the allowlist \<open>.txt, .md\<close> that the component announces; yet \<open>validateFile\<close>
  returns no error for it, and \<open>handleUpload\<close> issues the upload request.
\<close>

theorem validateFile_accepts_no_extension:
  "spec_extension ''txt'' = None \<and> \<not> spec_allowed ''txt'' \<and>
   validateFile (demo_file ''txt'' ''x'') = None \<and>
   out_requested (handleUpload (demo_upload []) demo_world demo_ui [demo_file ''txt'' ''x'']) =
     [demo_file ''txt'' ''x''] \<and>
   spec_extension ''.md'' = None \<and> \<not> spec_allowed ''.md'' \<and>
   validateFile (demo_file ''.md'' ''x'') = None \<and>
   out_requested (handleUpload (demo_upload []) demo_world demo_ui [demo_file ''.md'' ''x'']) =
     [demo_file ''.md'' ''x'']"
proof -
  have s1: "spec_extension ''txt'' = None" by code_simp
  have s2: "spec_extension ''.md'' = None" by code_simp
  have a1: "\<not> spec_allowed ''txt''" by (simp add: spec_allowed_def s1)
  have a2: "\<not> spec_allowed ''.md''" by (simp add: spec_allowed_def s2)
  have u1: "fst (snd (upload_all (demo_upload []) demo_world [demo_file ''txt'' ''x''] [])) =
      [demo_file ''txt'' ''x'']"
    by code_simp
  have u2: "fst (snd (upload_all (demo_upload []) demo_world [demo_file ''.md'' ''x''] [])) =
      [demo_file ''.md'' ''x'']"
    by code_simp
  have h1: "out_requested (handleUpload (demo_upload []) demo_world demo_ui [demo_file ''txt'' ''x'']) =
     [demo_file ''txt'' ''x'']"
    using handleUpload_requested [of "[demo_file ''txt'' ''x'']" "demo_upload []" demo_world demo_ui] u1
    by (simp add: validateFile_no_dot del: upload_all.simps)
  have h2: "out_requested (handleUpload (demo_upload []) demo_world demo_ui [demo_file ''.md'' ''x'']) =
     [demo_file ''.md'' ''x'']"
    using handleUpload_requested [of "[demo_file ''.md'' ''x'']" "demo_upload []" demo_world demo_ui] u2
    by (simp add: validateFile_dot_first del: upload_all.simps)
  from s1 s2 a1 a2 h1 h2 validateFile_no_dot validateFile_dot_first show ?thesis by blast
qed

lemma upload_all_Cons_Inl:
  "up w f = (w1, Inl m) \<Longrightarrow> upload_all up w (f # fs) acc = (w1, [f], Inl m)"
  by simp

lemma upload_all_Cons_Inr:
  "up w f = (w1, Inr res) \<Longrightarrow> upload_all up w1 fs (if ur_skipped res then acc @ [f_name f] else acc) = (w2, rq, out) \<Longrightarrow>
     upload_all up w (f # fs) acc = (w2, f # rq, out)"
  by simp

lemma upload_all_acc_subset:
  "upload_all up w files acc = (w', req, Inr skipped) \<Longrightarrow> set acc \<subseteq> set skipped"
proof (induction files arbitrary: w acc req)
  case Nil
  then show ?case by simp
next
  case (Cons f fs)
  obtain w1 r where u: "up w f = (w1, r)" by (cases "up w f")
  show ?case
  proof (cases r)
    case (Inl m)
    with Cons.prems upload_all_Cons_Inl [of up w f w1 m fs acc] u show ?thesis by simp
  next
    case (Inr res)
    let ?acc = "if ur_skipped res then acc @ [f_name f] else acc"
    obtain w2 rq out where a: "upload_all up w1 fs ?acc = (w2, rq, out)"
      by (cases "upload_all up w1 fs ?acc")
    from upload_all_Cons_Inr [of up w f w1 res fs acc w2 rq out] u Inr a
    have "upload_all up w (f # fs) acc = (w2, f # rq, out)" by simp
    with Cons.prems have "out = Inr skipped" and "w2 = w'" by simp_all
    with a have "upload_all up w1 fs ?acc = (w', rq, Inr skipped)" by simp
    from Cons.IH [OF this] have "set ?acc \<subseteq> set skipped" .
    then show ?thesis by (cases "ur_skipped res") auto
  qed
qed

lemma upload_all_head_skipped:
  assumes "upload_all up w (f # fs) acc = (w', req, Inr skipped)"
    and "up w f = (w1, Inr res)" and "ur_skipped res"
  shows "f_name f \<in> set skipped"
proof -
  obtain w2 rq out where a: "upload_all up w1 fs (acc @ [f_name f]) = (w2, rq, out)"
    by (cases "upload_all up w1 fs (acc @ [f_name f])")
  from upload_all_Cons_Inr [of up w f w1 res fs acc w2 rq out] assms(2,3) a
  have "upload_all up w (f # fs) acc = (w2, f # rq, out)" by simp
  with assms(1) have "out = Inr skipped" by simp
  with a have "upload_all up w1 fs (acc @ [f_name f]) = (w2, rq, Inr skipped)" by simp
  from upload_all_acc_subset [OF this] show ?thesis by simp
qed

lemma upload_all_world: "fst (upload_all up w xs acc) = fst (upload_all up w xs acc')"
proof (induction xs arbitrary: w acc acc')
  case Nil
  show ?case by simp
next
  case (Cons f fs)
  obtain w1 r where u: "up w f = (w1, r)" by (cases "up w f")
  show ?case
  proof (cases r)
    case (Inl m)
    with u show ?thesis by simp
  next
    case (Inr res)
    let ?a = "if ur_skipped res then acc @ [f_name f] else acc"
    let ?a' = "if ur_skipped res then acc' @ [f_name f] else acc'"
    have ih: "fst (upload_all up w1 fs ?a) = fst (upload_all up w1 fs ?a')" by (rule Cons.IH)
    obtain w2 rq out where a: "upload_all up w1 fs ?a = (w2, rq, out)"
      by (cases "upload_all up w1 fs ?a")
    obtain w2' rq' out' where a': "upload_all up w1 fs ?a' = (w2', rq', out')"
      by (cases "upload_all up w1 fs ?a'")
    from upload_all_Cons_Inr [of up w f w1 res fs acc w2 rq out] u Inr a
    have 1: "upload_all up w (f # fs) acc = (w2, f # rq, out)" by simp
    from upload_all_Cons_Inr [of up w f w1 res fs acc' w2' rq' out'] u Inr a'
    have 2: "upload_all up w (f # fs) acc' = (w2', f # rq', out')" by simp
    from ih a a' have "w2 = w2'" by simp
    with 1 2 show ?thesis by simp
  qed
qed

lemma upload_all_append_Inr:
  "upload_all up w (xs @ ys) acc = (w', req, Inr skipped) \<Longrightarrow>
     \<exists>acc1 req2. upload_all up (fst (upload_all up w xs acc)) ys acc1 = (w', req2, Inr skipped)"
proof (induction xs arbitrary: w acc req)
  case Nil
  then show ?case by auto
next
  case (Cons f fs)
  obtain w1 r where u: "up w f = (w1, r)" by (cases "up w f")
  show ?case
  proof (cases r)
    case (Inl m)
    with Cons.prems upload_all_Cons_Inl [of up w f w1 m "fs @ ys" acc] u show ?thesis by simp
  next
    case (Inr res)
    let ?a = "if ur_skipped res then acc @ [f_name f] else acc"
    obtain w2 rq out where a: "upload_all up w1 (fs @ ys) ?a = (w2, rq, out)"
      by (cases "upload_all up w1 (fs @ ys) ?a")
    from upload_all_Cons_Inr [of up w f w1 res "fs @ ys" acc w2 rq out] u Inr a
    have "upload_all up w (f # fs @ ys) acc = (w2, f # rq, out)" by simp
    with Cons.prems have "w2 = w'" "out = Inr skipped" by auto
    with a have "upload_all up w1 (fs @ ys) ?a = (w', rq, Inr skipped)" by simp
    from Cons.IH [OF this] obtain acc1 req2 where
      r: "upload_all up (fst (upload_all up w1 fs ?a)) ys acc1 = (w', req2, Inr skipped)" by blast
    obtain w3 rq3 out3 where b: "upload_all up w1 fs ?a = (w3, rq3, out3)"
      by (cases "upload_all up w1 fs ?a")
    from upload_all_Cons_Inr [of up w f w1 res fs acc w3 rq3 out3] u Inr b
    have "upload_all up w (f # fs) acc = (w3, f # rq3, out3)" by simp
    with b have e: "fst (upload_all up w (f # fs) acc) = fst (upload_all up w1 fs ?a)" by simp
    from r show ?thesis unfolding e by blast
  qed
qed

lemma decide_Unchanged:
  "decide B db owner name bytes = Unchanged \<Longrightarrow>
     \<exists>prior. latest_document db owner name = Some prior \<and> prior \<in> set (db_documents db)"
proof -
  assume d: "decide B db owner name bytes = Unchanged"
  then obtain prior where p: "latest_document db owner name = Some prior"
    by (auto simp: decide_def split: option.splits)
  then obtain older where
    "rev (filter (\<lambda>d. d_user_id d = owner \<and> d_filename d = name) (db_documents db)) = prior # older"
    by (auto simp: latest_document_def split: list.splits)
  then have "prior \<in> set (rev (filter (\<lambda>d. d_user_id d = owner \<and> d_filename d = name) (db_documents db)))"
    by (simp only: list.set_intros)
  with p show ?thesis by auto
qed

lemma upload_endpoint_Unchanged:
  "decide B db owner (f_name file) (f_bytes file) = Unchanged \<Longrightarrow>
     \<exists>prior. prior \<in> set (db_documents db) \<and>
       upload_endpoint B db owner file = (db, HttpOk \<lparr> ur_document = prior, ur_skipped = True \<rparr>)"
  by (frule decide_Unchanged) (auto simp: upload_endpoint_def)

text \<open>
  C5, for batches that run to their end. When the fingerprint of the uploaded bytes equals
  the one stored for (owner, filename), the endpoint answers with the stored document and
  the flag \<open>skipped\<close>, and leaves the database as it was: no chunk is created, deleted or
  changed, and \<open>chunk_count\<close> stays. Through \<open>uploadDocument\<close> that answer reaches the caller
  and the world behind \<open>fetch\<close> is as before. In a batch that passes validation and in which
  every upload succeeds, the name of each file whose answer carried the flag is in
  \<open>skippedFiles\<close>, and \<open>handleUpload\<close> shows the message that lists them.
\<close>

theorem unchanged_upload_skipped:
  "(decide B db owner (f_name f) (f_bytes f) = Unchanged \<longrightarrow>
      (\<exists>prior. prior \<in> set (db_documents db) \<and>
         upload_endpoint B db owner f = (db, HttpOk \<lparr> ur_document = prior, ur_skipped = True \<rparr>))) \<and>
   (w_session w0 = Some owner \<and> f_name f \<notin> set down \<and>
    decide B (w_db w0) owner (f_name f) (f_bytes f) = Unchanged \<longrightarrow>
      (\<exists>prior. uploadDocument w_session (post_upload B down) w0 f =
         (w0, Inr \<lparr> ur_document = prior, ur_skipped = True \<rparr>))) \<and>
   (first_validation_error (pre @ f # post) = None \<and>
    upload_all upload w (pre @ f # post) [] = (w', requested, Inr skippedFiles) \<and>
    upload (fst (upload_all upload w pre [])) f = (w1, Inr result) \<and> ur_skipped result \<longrightarrow>
      f_name f \<in> set skippedFiles \<and>
      out_ui (handleUpload upload w ui (pre @ f # post)) =
        ui \<lparr> ui_error := None, ui_info := Some (skipped_message skippedFiles), ui_uploading := False \<rparr>)"
proof (intro conjI impI)
  assume "decide B db owner (f_name f) (f_bytes f) = Unchanged"
  then show "\<exists>prior. prior \<in> set (db_documents db) \<and>
         upload_endpoint B db owner f = (db, HttpOk \<lparr> ur_document = prior, ur_skipped = True \<rparr>)"
    by (rule upload_endpoint_Unchanged)
next
  assume a: "w_session w0 = Some owner \<and> f_name f \<notin> set down \<and>
    decide B (w_db w0) owner (f_name f) (f_bytes f) = Unchanged"
  then obtain prior where
    "upload_endpoint B (w_db w0) owner f = (w_db w0, HttpOk \<lparr> ur_document = prior, ur_skipped = True \<rparr>)"
    using upload_endpoint_Unchanged [of B "w_db w0" owner f] by blast
  with a have "uploadDocument w_session (post_upload B down) w0 f =
         (w0, Inr \<lparr> ur_document = prior, ur_skipped = True \<rparr>)"
    by (simp add: uploadDocument_def post_upload_def)
  then show "\<exists>prior. uploadDocument w_session (post_upload B down) w0 f =
         (w0, Inr \<lparr> ur_document = prior, ur_skipped = True \<rparr>)" ..
next
  assume a: "first_validation_error (pre @ f # post) = None \<and>
    upload_all upload w (pre @ f # post) [] = (w', requested, Inr skippedFiles) \<and>
    upload (fst (upload_all upload w pre [])) f = (w1, Inr result) \<and> ur_skipped result"
  then have all: "upload_all upload w (pre @ f # post) [] = (w', requested, Inr skippedFiles)"
    by simp
  from upload_all_append_Inr [OF all] obtain acc1 req2 where
    "upload_all upload (fst (upload_all upload w pre [])) (f # post) acc1 = (w', req2, Inr skippedFiles)"
    by blast
  from upload_all_head_skipped [OF this] a have "f_name f \<in> set skippedFiles" by blast
  then show "f_name f \<in> set skippedFiles" .
  from \<open>f_name f \<in> set skippedFiles\<close> have "skippedFiles \<noteq> []" by auto
  with a all show "out_ui (handleUpload upload w ui (pre @ f # post)) =
        ui \<lparr> ui_error := None, ui_info := Some (skipped_message skippedFiles), ui_uploading := False \<rparr>"
    by (simp add: handleUpload_def)
qed

lemma file_ext_a_txt: "file_ext ''a.txt'' = ''.txt''"
  by code_simp

lemma file_ext_new_md: "file_ext ''new.md'' = ''.md''"
  by code_simp

lemma file_ext_c_md: "file_ext ''c.md'' = ''.md''"
  by code_simp

lemma demo_files_valid:
  "validateFile (demo_file ''a.txt'' ''dogcat'') = None"
  "validateFile (demo_file ''new.md'' ''hello'') = None"
  "validateFile (demo_file ''c.md'' ''hello'') = None"
  by (simp_all add: validateFile_def demo_file_def ALLOWED_EXTENSIONS_def
        file_ext_a_txt file_ext_new_md file_ext_c_md)

lemma demo_decide_unchanged:
  "decide demo_backend (w_db demo_world) ''alice'' ''a.txt'' ''dogcat'' = Unchanged"
  by code_simp

theorem unchanged_upload_skipped_witness:
  "decide demo_backend (w_db demo_world) ''alice'' (f_name (demo_file ''a.txt'' ''dogcat''))
      (f_bytes (demo_file ''a.txt'' ''dogcat'')) = Unchanged \<and>
   w_session demo_world = Some ''alice'' \<and>
   (\<exists>prior. prior \<in> set (db_documents (w_db demo_world)) \<and>
      upload_endpoint demo_backend (w_db demo_world) ''alice'' (demo_file ''a.txt'' ''dogcat'') =
        (w_db demo_world, HttpOk \<lparr> ur_document = prior, ur_skipped = True \<rparr>)) \<and>
   (\<exists>prior. demo_upload [] demo_world (demo_file ''a.txt'' ''dogcat'') =
      (demo_world, Inr \<lparr> ur_document = prior, ur_skipped = True \<rparr>)) \<and>
   first_validation_error [demo_file ''new.md'' ''hello'', demo_file ''a.txt'' ''dogcat''] = None \<and>
   snd (upload_all (demo_upload []) demo_world
          [demo_file ''new.md'' ''hello'', demo_file ''a.txt'' ''dogcat''] []) =
     ([demo_file ''new.md'' ''hello'', demo_file ''a.txt'' ''dogcat''], Inr [''a.txt'']) \<and>
   out_ui (handleUpload (demo_upload []) demo_world demo_ui
             [demo_file ''new.md'' ''hello'', demo_file ''a.txt'' ''dogcat'']) =
     \<lparr> ui_uploading = False, ui_error = None, ui_info = Some (skipped_message [''a.txt'']) \<rparr>"
proof -
  let ?a = "demo_file ''a.txt'' ''dogcat''" and ?b = "demo_file ''new.md'' ''hello''"
  let ?up = "demo_upload [] :: (int list, string list, string list) world \<Rightarrow> js_file
       \<Rightarrow> (int list, string list, string list) world \<times> (string + string list upload_result)"
  have d: "decide demo_backend (w_db demo_world) ''alice'' (f_name ?a) (f_bytes ?a) = Unchanged"
    by (simp add: demo_file_def demo_decide_unchanged)
  have s: "w_session demo_world = Some ''alice''" by (simp add: demo_world_def)
  have v: "first_validation_error [?b, ?a] = None" by (simp add: demo_files_valid)
  have u: "snd (upload_all ?up demo_world [?b, ?a] []) = ([?b, ?a], Inr [''a.txt''])"
    by code_simp
  then obtain w' where all: "upload_all ?up demo_world ([?b] @ ?a # []) [] = (w', [?b, ?a], Inr [''a.txt''])"
    by (cases "upload_all ?up demo_world [?b, ?a] []") auto
  have "map_sum id ur_skipped (snd (?up (fst (upload_all ?up demo_world [?b] [])) ?a)) = Inr True"
    by code_simp
  then obtain w1 result where r: "?up (fst (upload_all ?up demo_world [?b] [])) ?a = (w1, Inr result)"
    and k: "ur_skipped result"
    by (cases "?up (fst (upload_all ?up demo_world [?b] [])) ?a";
        cases "snd (?up (fst (upload_all ?up demo_world [?b] [])) ?a)") auto
  note t = unchanged_upload_skipped [where B = demo_backend and db = "w_db demo_world"
      and owner = "''alice''" and f = ?a and ?w0.0 = demo_world and down = "[]"
      and pre = "[?b]" and post = "[]" and upload = ?up and w = demo_world and w' = w'
      and requested = "[?b, ?a]" and skippedFiles = "[''a.txt'']" and ?w1.0 = w1
      and result = result and ui = demo_ui]
  from t d have p1: "\<exists>prior. prior \<in> set (db_documents (w_db demo_world)) \<and>
      upload_endpoint demo_backend (w_db demo_world) ''alice'' ?a =
        (w_db demo_world, HttpOk \<lparr> ur_document = prior, ur_skipped = True \<rparr>)" by blast
  from t d s have p2: "\<exists>prior. ?up demo_world ?a =
      (demo_world, Inr \<lparr> ur_document = prior, ur_skipped = True \<rparr>)"
    by (simp add: demo_upload_def)
  from t v all r k have "out_ui (handleUpload ?up demo_world demo_ui [?b, ?a]) =
      demo_ui \<lparr> ui_error := None, ui_info := Some (skipped_message [''a.txt'']), ui_uploading := False \<rparr>"
    by simp
  then have p3: "out_ui (handleUpload ?up demo_world demo_ui [?b, ?a]) =
     \<lparr> ui_uploading = False, ui_error = None, ui_info = Some (skipped_message [''a.txt'']) \<rparr>"
    by (simp add: demo_ui_def)
  from d s p1 p2 v u p3 show ?thesis by blast
qed

text \<open>
  C5 as stated fails when a later request of the batch throws: the first file is unchanged
  and its answer carries \<open>skipped\<close>, the second request is rejected by the network, and
  \<open>handleUpload\<close> shows the error alone; the info message is never set.
\<close>

theorem skipped_upload_not_reported:
  "decide demo_backend (w_db demo_world) ''alice'' ''a.txt'' ''dogcat'' = Unchanged \<and>
   fst (demo_upload [''c.md''] demo_world (demo_file ''a.txt'' ''dogcat'')) = demo_world \<and>
   map_sum id ur_skipped (snd (demo_upload [''c.md''] demo_world (demo_file ''a.txt'' ''dogcat''))) = Inr True \<and>
   handleUpload (demo_upload [''c.md'']) demo_world demo_ui
       [demo_file ''a.txt'' ''dogcat'', demo_file ''c.md'' ''hello''] =
     \<lparr> out_world = demo_world,
       out_ui = \<lparr> ui_uploading = False, ui_error = Some ''Failed to fetch'', ui_info = None \<rparr>,
       out_requested = [demo_file ''a.txt'' ''dogcat'', demo_file ''c.md'' ''hello''],
       out_completed = False \<rparr>"
proof -
  let ?a = "demo_file ''a.txt'' ''dogcat''" and ?c = "demo_file ''c.md'' ''hello''"
  let ?up = "demo_upload [''c.md''] :: (int list, string list, string list) world \<Rightarrow> js_file
       \<Rightarrow> (int list, string list, string list) world \<times> (string + string list upload_result)"
  have v: "first_validation_error [?a, ?c] = None" by (simp add: demo_files_valid)
  have u: "upload_all ?up demo_world [?a, ?c] [] = (demo_world, [?a, ?c], Inl ''Failed to fetch'')"
    by code_simp
  have h: "handleUpload ?up demo_world demo_ui [?a, ?c] =
     \<lparr> out_world = demo_world,
       out_ui = \<lparr> ui_uploading = False, ui_error = Some ''Failed to fetch'', ui_info = None \<rparr>,
       out_requested = [?a, ?c], out_completed = False \<rparr>"
    unfolding handleUpload_def v u by (simp add: demo_ui_def)
  have 1: "fst (?up demo_world ?a) = demo_world" by code_simp
  have 2: "map_sum id ur_skipped (snd (?up demo_world ?a)) = Inr True" by code_simp
  from demo_decide_unchanged 1 2 h show ?thesis by blast
qed

section \<open>Properties of the settings update\<close>

lemma form_update_touches_embedding: "touches_embedding (form_update parseInt form)"
  by (simp add: touches_embedding_def form_update_def)

lemma update_settings_rejected:
  "chunks \<noteq> [] \<Longrightarrow> touches_embedding u \<Longrightarrow> update_settings chunks st u = (st, Inl ConsistencyError)"
  by (simp add: update_settings_def)

lemma update_settings_embedding_fields:
  "chunks \<noteq> [] \<Longrightarrow> embedding_fields (fst (update_settings chunks st u)) = embedding_fields st"
  by (auto simp: update_settings_def embedding_fields_def apply_update_def touches_embedding_def
        set_field_def)

lemma update_settings_no_chunks:
  "update_settings [] st u = (apply_update st u, Inr (apply_update st u))"
  by (simp add: update_settings_def)

lemma handleSave_locked:
  assumes "sw_session w = Some access_token" and "sw_chunks w \<noteq> []"
  shows "handleSave parseInt (updateSettings sw_session (put_settings detail_of)) w form ui =
           (w, \<lparr> su_saving = False, su_success = False,
                 su_error = Some (error_detail (Some (detail_of ConsistencyError)) ''Request failed'') \<rparr>)"
proof -
  have "update_settings (sw_chunks w) (sw_settings w) (form_update parseInt form) =
          (sw_settings w, Inl ConsistencyError)"
    using assms(2) by (rule update_settings_rejected) (rule form_update_touches_embedding)
  then have "put_settings detail_of w access_token (form_update parseInt form) =
          (w, HttpError (Some (detail_of ConsistencyError)))"
    by (simp add: put_settings_def)
  with assms(1) show ?thesis
    by (simp add: handleSave_def updateSettings_def)
qed

lemma handleSave_unlocked:
  assumes "sw_session w = Some access_token" and "sw_chunks w = []"
  shows "handleSave parseInt (updateSettings sw_session (put_settings detail_of)) w form ui =
           (w \<lparr> sw_settings := apply_update (sw_settings w) (form_update parseInt form) \<rparr>,
            \<lparr> su_saving = False, su_success = True, su_error = None \<rparr>)"
proof -
  have "put_settings detail_of w access_token (form_update parseInt form) =
          (w \<lparr> sw_settings := apply_update (sw_settings w) (form_update parseInt form) \<rparr>,
           HttpOk (apply_update (sw_settings w) (form_update parseInt form)))"
    using assms(2) by (simp add: put_settings_def update_settings_no_chunks)
  with assms(1) show ?thesis
    by (simp add: handleSave_def updateSettings_def)
qed

text \<open>
  C7. While at least one chunk exists, a settings update that carries an embedding-related
  field (model, base URL, API key or dimensionality) is rejected with \<open>ConsistencyError\<close>
  and the stored record stays as it was; whatever the request carries, the stored embedding
  fields are the same after it. With no chunk the same update succeeds and is stored. The
  request that \<open>handleSave\<close> sends carries all four fields: while chunks exist the page shows
  the error of the rejection and no success, and with no chunk it shows success.
\<close>

theorem embedding_settings_locked:
  "(chunks \<noteq> [] \<and> touches_embedding u \<longrightarrow>
      update_settings chunks st u = (st, Inl ConsistencyError)) \<and>
   (chunks \<noteq> [] \<longrightarrow>
      embedding_fields (fst (update_settings chunks st u)) = embedding_fields st) \<and>
   update_settings ([] :: ('e, 'j, 'v) chunk list) st u = (apply_update st u, Inr (apply_update st u)) \<and>
   (sw_session w = Some access_token \<and> sw_chunks w \<noteq> [] \<longrightarrow>
      handleSave parseInt (updateSettings sw_session (put_settings detail_of)) w form ui =
        (w, \<lparr> su_saving = False, su_success = False,
              su_error = Some (error_detail (Some (detail_of ConsistencyError)) ''Request failed'') \<rparr>)) \<and>
   (sw_session w = Some access_token \<and> sw_chunks w = [] \<longrightarrow>
      handleSave parseInt (updateSettings sw_session (put_settings detail_of)) w form ui =
        (w \<lparr> sw_settings := apply_update (sw_settings w) (form_update parseInt form) \<rparr>,
         \<lparr> su_saving = False, su_success = True, su_error = None \<rparr>))"
  using update_settings_rejected [of chunks u st] update_settings_embedding_fields [of chunks st u]
    update_settings_no_chunks [of st u, where ?'a = 'e and ?'b = 'j and ?'c = 'v]
    handleSave_locked [of w access_token parseInt detail_of form ui]
    handleSave_unlocked [of w access_token parseInt detail_of form ui]
  by blast

theorem embedding_settings_locked_witness:
  "demo_chunks \<noteq> [] \<and> touches_embedding (form_update demo_parseInt demo_form) \<and>
   update_settings demo_chunks demo_settings (form_update demo_parseInt demo_form) =
     (demo_settings, Inl ConsistencyError) \<and>
   embedding_fields (fst (update_settings demo_chunks demo_settings (form_update demo_parseInt demo_form))) =
     (Some ''text-embedding-3-small'', None, None, Some 1536) \<and>
   embedding_fields (fst (update_settings ([] :: (int list, string list, string list) chunk list) demo_settings
       (form_update demo_parseInt demo_form))) =
     (Some ''text-embedding-3-small'', None, None, Some 3072) \<and>
   sw_session (demo_settings_world demo_chunks) = Some ''admin'' \<and>
   handleSave demo_parseInt (updateSettings sw_session (put_settings demo_detail))
       (demo_settings_world demo_chunks) demo_form \<lparr> su_saving = False, su_success = False, su_error = None \<rparr> =
     (demo_settings_world demo_chunks,
      \<lparr> su_saving = False, su_success = False,
        su_error = Some ''Cannot change embedding settings while chunks exist'' \<rparr>) \<and>
   snd (handleSave demo_parseInt (updateSettings sw_session (put_settings demo_detail))
       (demo_settings_world []) demo_form \<lparr> su_saving = False, su_success = False, su_error = None \<rparr>) =
     \<lparr> su_saving = False, su_success = True, su_error = None \<rparr>"
proof -
  let ?u = "form_update demo_parseInt demo_form"
  let ?ui = "\<lparr> su_saving = False, su_success = False, su_error = None \<rparr>"
  have c: "demo_chunks \<noteq> []" by (simp add: demo_chunks_def)
  have t: "touches_embedding ?u" by (simp add: touches_embedding_def form_update_def)
  have s: "sw_session (demo_settings_world demo_chunks) = Some ''admin''"
    "sw_chunks (demo_settings_world demo_chunks) = demo_chunks"
    "sw_session (demo_settings_world []) = Some ''admin''"
    "sw_chunks (demo_settings_world []) = []"
    by (simp_all add: demo_settings_world_def)
  note a = embedding_settings_locked [of demo_chunks ?u demo_settings "demo_settings_world demo_chunks"
      "''admin''" demo_parseInt demo_detail demo_form ?ui]
  note b = embedding_settings_locked [of demo_chunks ?u demo_settings "demo_settings_world []"
      "''admin''" demo_parseInt demo_detail demo_form ?ui]
  from a c t have 1: "update_settings demo_chunks demo_settings ?u = (demo_settings, Inl ConsistencyError)"
    by blast
  from a c have "embedding_fields (fst (update_settings demo_chunks demo_settings ?u)) =
      embedding_fields demo_settings" by blast
  then have 2: "embedding_fields (fst (update_settings demo_chunks demo_settings ?u)) =
      (Some ''text-embedding-3-small'', None, None, Some 1536)"
    by (simp add: embedding_fields_def demo_settings_def)
  have 3: "embedding_fields (fst (update_settings ([] :: (int list, string list, string list) chunk list)
      demo_settings ?u)) = (Some ''text-embedding-3-small'', None, None, Some 3072)"
    by code_simp
  have e: "error_detail (Some (demo_detail ConsistencyError)) ''Request failed'' =
      ''Cannot change embedding settings while chunks exist''"
    by (simp add: error_detail_def demo_detail_def)
  from s c have "sw_session (demo_settings_world demo_chunks) = Some ''admin'' \<and>
      sw_chunks (demo_settings_world demo_chunks) \<noteq> []" by simp
  with a have "handleSave demo_parseInt (updateSettings sw_session (put_settings demo_detail))
       (demo_settings_world demo_chunks) demo_form ?ui =
     (demo_settings_world demo_chunks,
      \<lparr> su_saving = False, su_success = False,
        su_error = Some (error_detail (Some (demo_detail ConsistencyError)) ''Request failed'') \<rparr>)"
    by blast
  then have 4: "handleSave demo_parseInt (updateSettings sw_session (put_settings demo_detail))
       (demo_settings_world demo_chunks) demo_form ?ui =
     (demo_settings_world demo_chunks,
      \<lparr> su_saving = False, su_success = False,
        su_error = Some ''Cannot change embedding settings while chunks exist'' \<rparr>)"
    by (simp only: e)
  from s have "sw_session (demo_settings_world []) = Some ''admin'' \<and>
      sw_chunks (demo_settings_world [] :: (int list, string list, string list) settings_world) = []" by simp
  with b have "handleSave demo_parseInt (updateSettings sw_session (put_settings demo_detail))
       (demo_settings_world []) demo_form ?ui =
        (demo_settings_world [] \<lparr> sw_settings := apply_update (sw_settings (demo_settings_world [])) ?u \<rparr>,
         \<lparr> su_saving = False, su_success = True, su_error = None \<rparr>)"
    by blast
  then have 5: "snd (handleSave demo_parseInt (updateSettings sw_session (put_settings demo_detail))
       (demo_settings_world []) demo_form ?ui) =
     \<lparr> su_saving = False, su_success = True, su_error = None \<rparr>"
    by simp
  from c t 1 2 3 s(1) 4 5 show ?thesis by blast
qed

end
